theory Spec2Isabelle
  imports Complex_Main "HOL-Library.AList" "HOL-Library.Log_Nat"
begin

section \<open>Python values used by the bot\<close>

text \<open>
  A Python \<open>str\<close> is a sequence of Unicode code points: \<open>len\<close> and slicing count code
  points, so a string is modelled as a list of code points (natural numbers).
  \<open>lit\<close> embeds an ASCII literal; other characters are written as their code points.
\<close>

type_synonym pystr = "nat list"

definition lit :: "string \<Rightarrow> pystr" where
  "lit s = map of_char s"

text \<open>The exceptions that the modelled statements can raise.\<close>

datatype py_error =
  KeyError | IndexError | ZeroDivisionError | OverflowError | AttributeError | TelegramError pystr

text \<open>
  A Python \<open>dict\<close> keeps its keys in insertion order, so a dictionary is an association
  list; \<open>k in d\<close> is \<open>contains\<close>, \<open>d[k] = v\<close> is \<open>AList.update\<close> (an existing key keeps
  its position, a new key goes to the end) and \<open>del d[k]\<close> is \<open>dict_del\<close>, which raises
  \<open>KeyError\<close> on a missing key.
\<close>

definition contains :: "('k \<times> 'v) list \<Rightarrow> 'k \<Rightarrow> bool" where
  "contains d k = (map_of d k \<noteq> None)"

definition dict_del :: "('k \<times> 'v) list \<Rightarrow> 'k \<Rightarrow> py_error + ('k \<times> 'v) list" where
  "dict_del d k = (if contains d k then Inr (AList.delete k d) else Inl KeyError)"

text \<open>
  \<open>defaultdict.__getitem__\<close>: reading a missing key stores the default under it and
  returns it; the dictionary is returned with the value.
\<close>

definition dd_get :: "('k \<times> 'v) list \<Rightarrow> 'k \<Rightarrow> 'v \<Rightarrow> 'v \<times> ('k \<times> 'v) list" where
  "dd_get d k dflt =
     (case map_of d k of Some v \<Rightarrow> (v, d) | None \<Rightarrow> (dflt, d @ [(k, dflt)]))"

text \<open>\<open>del xs[k]\<close> on a list: a negative index counts from the end.\<close>

definition list_del :: "'a list \<Rightarrow> int \<Rightarrow> py_error + 'a list" where
  "list_del xs k =
     (let n = int (length xs); j = (if k < 0 then k + n else k)
      in if 0 \<le> j \<and> j < n then Inr (take (nat j) xs @ drop (Suc (nat j)) xs)
         else Inl IndexError)"

text \<open>
  A Python \<open>float\<close> is an IEEE 754 double; it is represented by the rational number
  that is its value. \<open>round_double\<close> rounds a rational to the nearest double, a tie
  going to the even significand: a number in the binade \<open>[2^e, 2^(e+1))\<close> is rounded
  to a multiple of \<open>2^(e - 52)\<close>, below \<open>2^(-1022)\<close> to a multiple of \<open>2^(-1074)\<close>, and
  there is no double from \<open>2^1024\<close> on.
\<close>

definition round_half_even :: "rat \<Rightarrow> int" where
  "round_half_even x =
     (let f = \<lfloor>x\<rfloor>; r = x - of_int f
      in if r < 1 / 2 then f else if 1 / 2 < r then f + 1 else if even f then f else f + 1)"

definition binade :: "rat \<Rightarrow> int" where
  \<comment> \<open>for \<open>a > 0\<close>, the \<open>e\<close> with \<open>2^e \<le> a < 2^(e+1)\<close>\<close>
  "binade a =
     (let (n, d) = quotient_of a; e0 = bitlen n - bitlen d
      in if 2 powi e0 \<le> a then e0 else e0 - 1)"

definition round_double :: "rat \<Rightarrow> rat option" where
  "round_double q =
     (if q = 0 then Some 0
      else (let a = \<bar>q\<bar>; k = max (binade a) (- 1022) - 52;
                r = of_int (round_half_even (a / 2 powi k)) * 2 powi k
            in if 2 powi 1024 \<le> r then None else Some (if q < 0 then - r else r)))"

text \<open>
  True division \<open>a / b\<close> of two integers: the double nearest to the quotient;
  \<open>ZeroDivisionError\<close> for a zero divisor, \<open>OverflowError\<close> when the quotient is too
  large for a double.
\<close>

definition py_truediv :: "int \<Rightarrow> int \<Rightarrow> py_error + rat" where
  "py_truediv a b =
     (if b = 0 then Inl ZeroDivisionError
      else (case round_double (of_int a / of_int b) of
              None \<Rightarrow> Inl OverflowError
            | Some r \<Rightarrow> Inr r))"

section \<open>The data store (data_store.py)\<close>

text \<open>
  \<open>self.data\<close> is \<open>defaultdict(lambda: defaultdict(lambda: defaultdict(list)))\<close>:
  user id, then list name, then item name, then the list of (rating, comment) pairs.
\<close>

type_synonym rating = "int \<times> pystr"
type_synonym item_dict = "(pystr \<times> rating list) list"
type_synonym list_dict = "(pystr \<times> item_dict) list"
type_synonym store = "(pystr \<times> list_dict) list"

definition init :: store where
  "init = []"

text \<open>
  The three subscript expressions of the class. Each level is a \<open>defaultdict\<close>; the
  inner dictionaries are objects held by the outer one, so a change to an inner
  dictionary is written back into the store.
\<close>

definition data_user :: "store \<Rightarrow> pystr \<Rightarrow> list_dict \<times> store" where
  \<comment> \<open>\<open>self.data[user_id]\<close>\<close>
  "data_user d u = dd_get d u []"

definition data_list :: "store \<Rightarrow> pystr \<Rightarrow> pystr \<Rightarrow> item_dict \<times> store" where
  \<comment> \<open>\<open>self.data[user_id][list_name]\<close>\<close>
  "data_list d u l =
     (let (ls, d1) = data_user d u; (its, ls1) = dd_get ls l []
      in (its, AList.update u ls1 d1))"

definition data_item :: "store \<Rightarrow> pystr \<Rightarrow> pystr \<Rightarrow> pystr \<Rightarrow> rating list \<times> store" where
  \<comment> \<open>\<open>self.data[user_id][list_name][item_name]\<close>\<close>
  "data_item d u l i =
     (let (ls, d1) = data_user d u; (its, ls1) = dd_get ls l []; (rs, its1) = dd_get its i []
      in (rs, AList.update u (AList.update l its1 ls1) d1))"

definition set_list :: "store \<Rightarrow> pystr \<Rightarrow> pystr \<Rightarrow> item_dict \<Rightarrow> store" where
  \<comment> \<open>\<open>self.data[user_id][list_name] = v\<close>\<close>
  "set_list d u l v = (let (ls, d1) = data_user d u in AList.update u (AList.update l v ls) d1)"

definition set_item :: "store \<Rightarrow> pystr \<Rightarrow> pystr \<Rightarrow> pystr \<Rightarrow> rating list \<Rightarrow> store" where
  \<comment> \<open>\<open>self.data[user_id][list_name][item_name] = v\<close>\<close>
  "set_item d u l i v =
     (let (ls, d1) = data_user d u; (its, ls1) = dd_get ls l []
      in AList.update u (AList.update l (AList.update i v its) ls1) d1)"

definition create_list :: "store \<Rightarrow> pystr \<Rightarrow> pystr \<Rightarrow> store" where
  "create_list d user_id list_name =
     (let (ls, d1) = data_user d user_id
      in if \<not> contains ls list_name then set_list d1 user_id list_name [] else d1)"

definition list_exists :: "store \<Rightarrow> pystr \<Rightarrow> pystr \<Rightarrow> bool \<times> store" where
  "list_exists d user_id list_name =
     (let (ls, d1) = data_user d user_id in (contains ls list_name, d1))"

definition get_all_lists :: "store \<Rightarrow> pystr \<Rightarrow> pystr list \<times> store" where
  "get_all_lists d user_id = (let (ls, d1) = data_user d user_id in (map fst ls, d1))"

definition add_item :: "store \<Rightarrow> pystr \<Rightarrow> pystr \<Rightarrow> pystr \<Rightarrow> store" where
  "add_item d user_id list_name item_name =
     (let (ex, d1) = list_exists d user_id list_name;
          d2 = (if \<not> ex then create_list d1 user_id list_name else d1);
          (its, d3) = data_list d2 user_id list_name
      in if \<not> contains its item_name then set_item d3 user_id list_name item_name [] else d3)"

definition item_exists :: "store \<Rightarrow> pystr \<Rightarrow> pystr \<Rightarrow> pystr \<Rightarrow> bool \<times> store" where
  "item_exists d user_id list_name item_name =
     (let (ls, d1) = data_user d user_id
      in if contains ls list_name
         then (let (its, d2) = data_list d1 user_id list_name in (contains its item_name, d2))
         else (False, d1))"

definition get_list_items :: "store \<Rightarrow> pystr \<Rightarrow> pystr \<Rightarrow> item_dict \<times> store" where
  "get_list_items d user_id list_name =
     (let (ex, d1) = list_exists d user_id list_name
      in if \<not> ex then ([], d1) else data_list d1 user_id list_name)"

definition add_rating :: "store \<Rightarrow> pystr \<Rightarrow> pystr \<Rightarrow> pystr \<Rightarrow> int \<Rightarrow> pystr \<Rightarrow> store" where
  "add_rating d user_id list_name item_name rating comment =
     (let (ex, d1) = item_exists d user_id list_name item_name
      in if \<not> ex then d1
         else if \<not> (0 \<le> rating \<and> rating \<le> 10) then d1
         else (let (rs, d2) = data_item d1 user_id list_name item_name
               in set_item d2 user_id list_name item_name (rs @ [(rating, comment)])))"

definition get_item_ratings :: "store \<Rightarrow> pystr \<Rightarrow> pystr \<Rightarrow> pystr \<Rightarrow> rating list \<times> store" where
  "get_item_ratings d user_id list_name item_name =
     (let (ex, d1) = item_exists d user_id list_name item_name
      in if \<not> ex then ([], d1) else data_item d1 user_id list_name item_name)"

definition get_average_rating ::
  "store \<Rightarrow> pystr \<Rightarrow> pystr \<Rightarrow> pystr \<Rightarrow> py_error + (rat \<times> store)" where
  "get_average_rating d user_id list_name item_name =
     (let (ratings, d1) = get_item_ratings d user_id list_name item_name
      in if ratings = [] then Inr (0, d1)
         else (let rating_values = map fst ratings
               in case py_truediv (sum_list rating_values) (int (length rating_values)) of
                    Inl e \<Rightarrow> Inl e
                  | Inr q \<Rightarrow> Inr (q, d1)))"

definition delete_list :: "store \<Rightarrow> pystr \<Rightarrow> pystr \<Rightarrow> py_error + (bool \<times> store)" where
  "delete_list d user_id list_name =
     (let (ex, d1) = list_exists d user_id list_name
      in if \<not> ex then Inr (False, d1)
         else (let (ls, d2) = data_user d1 user_id
               in case dict_del ls list_name of
                    Inl e \<Rightarrow> Inl e
                  | Inr ls' \<Rightarrow> Inr (True, AList.update user_id ls' d2)))"

definition delete_item :: "store \<Rightarrow> pystr \<Rightarrow> pystr \<Rightarrow> pystr \<Rightarrow> py_error + (bool \<times> store)" where
  "delete_item d user_id list_name item_name =
     (let (ex, d1) = item_exists d user_id list_name item_name
      in if \<not> ex then Inr (False, d1)
         else (let (its, d2) = data_list d1 user_id list_name
               in case dict_del its item_name of
                    Inl e \<Rightarrow> Inl e
                  | Inr its' \<Rightarrow> Inr (True, set_list d2 user_id list_name its')))"

definition delete_rating ::
  "store \<Rightarrow> pystr \<Rightarrow> pystr \<Rightarrow> pystr \<Rightarrow> int \<Rightarrow> py_error + (bool \<times> store)" where
  "delete_rating d user_id list_name item_name rating_index =
     (let (ex, d1) = item_exists d user_id list_name item_name
      in if \<not> ex then Inr (False, d1)
         else (let (ratings, d2) = data_item d1 user_id list_name item_name
               in if rating_index < 0 \<or> rating_index \<ge> int (length ratings)
                  then Inr (False, d2)
                  else (case list_del ratings rating_index of
                          Inl e \<Rightarrow> Inl e
                        | Inr rs' \<Rightarrow> Inr (True, set_item d2 user_id list_name item_name rs'))))"

definition clear_ratings :: "store \<Rightarrow> pystr \<Rightarrow> pystr \<Rightarrow> pystr \<Rightarrow> bool \<times> store" where
  "clear_ratings d user_id list_name item_name =
     (let (ex, d1) = item_exists d user_id list_name item_name
      in if \<not> ex then (False, d1)
         else (True, set_item d1 user_id list_name item_name []))"


text \<open>
  A call of one method of the store, and a sequence of calls. Only the store after the
  call is kept here; a call that raised would stop the sequence with its error.
\<close>

datatype store_call =
    CreateList pystr pystr
  | ListExists pystr pystr
  | GetAllLists pystr
  | AddItem pystr pystr pystr
  | ItemExists pystr pystr pystr
  | GetListItems pystr pystr
  | AddRating pystr pystr pystr int pystr
  | GetItemRatings pystr pystr pystr
  | GetAverageRating pystr pystr pystr
  | DeleteList pystr pystr
  | DeleteItem pystr pystr pystr
  | DeleteRating pystr pystr pystr int
  | ClearRatings pystr pystr pystr

definition after :: "py_error + ('a \<times> store) \<Rightarrow> py_error + store" where
  "after r = (case r of Inl e \<Rightarrow> Inl e | Inr (x, d) \<Rightarrow> Inr d)"

fun call :: "store_call \<Rightarrow> store \<Rightarrow> py_error + store" where
  "call (CreateList u l) d = Inr (create_list d u l)"
| "call (ListExists u l) d = Inr (snd (list_exists d u l))"
| "call (GetAllLists u) d = Inr (snd (get_all_lists d u))"
| "call (AddItem u l i) d = Inr (add_item d u l i)"
| "call (ItemExists u l i) d = Inr (snd (item_exists d u l i))"
| "call (GetListItems u l) d = Inr (snd (get_list_items d u l))"
| "call (AddRating u l i s c) d = Inr (add_rating d u l i s c)"
| "call (GetItemRatings u l i) d = Inr (snd (get_item_ratings d u l i))"
| "call (GetAverageRating u l i) d = after (get_average_rating d u l i)"
| "call (DeleteList u l) d = after (delete_list d u l)"
| "call (DeleteItem u l i) d = after (delete_item d u l i)"
| "call (DeleteRating u l i k) d = after (delete_rating d u l i k)"
| "call (ClearRatings u l i) d = Inr (snd (clear_ratings d u l i))"

fun calls :: "store_call list \<Rightarrow> store \<Rightarrow> py_error + store" where
  "calls [] d = Inr d"
| "calls (c # cs) d = (case call c d of Inl e \<Rightarrow> Inl e | Inr d' \<Rightarrow> calls cs d')"

fun reads :: "store_call \<Rightarrow> bool" where
  "reads (ListExists u l) = True"
| "reads (GetAllLists u) = True"
| "reads (ItemExists u l i) = True"
| "reads (GetListItems u l) = True"
| "reads (GetItemRatings u l i) = True"
| "reads (GetAverageRating u l i) = True"
| "reads c = False"

fun is_create_list :: "store_call \<Rightarrow> bool" where
  "is_create_list (CreateList u l) = True"
| "is_create_list c = False"

fun is_add_item :: "store_call \<Rightarrow> bool" where
  "is_add_item (AddItem u l i) = True"
| "is_add_item c = False"

text \<open>Views of a store used to state its properties.\<close>

definition lookup2 :: "store \<Rightarrow> pystr \<Rightarrow> pystr \<Rightarrow> item_dict option" where
  "lookup2 d u l = (case map_of d u of None \<Rightarrow> None | Some ls \<Rightarrow> map_of ls l)"

definition lookup3 :: "store \<Rightarrow> pystr \<Rightarrow> pystr \<Rightarrow> pystr \<Rightarrow> rating list option" where
  "lookup3 d u l i = (case lookup2 d u l of None \<Rightarrow> None | Some its \<Rightarrow> map_of its i)"

definition score_ok :: "rating \<Rightarrow> bool" where
  "score_ok r = (0 \<le> fst r \<and> fst r \<le> 10)"

definition items_valid :: "item_dict \<Rightarrow> bool" where
  "items_valid its = list_all (\<lambda>(i, rs). list_all score_ok rs) its"

definition lists_valid :: "list_dict \<Rightarrow> bool" where
  "lists_valid ls = list_all (\<lambda>(l, its). items_valid its) ls"

definition ratings_valid :: "store \<Rightarrow> bool" where
  "ratings_valid d = list_all (\<lambda>(u, ls). lists_valid ls) d"

text \<open>The arithmetic mean of the scores of a rating sequence, 0 for the empty one.\<close>

definition mean_score :: "rating list \<Rightarrow> rat" where
  "mean_score rs = (if rs = [] then 0 else of_int (sum_list (map fst rs)) / of_nat (length rs))"


text \<open>
  The store with the rating sequence of an item of an existing list replaced, with a
  list removed, and with an item removed.
\<close>

definition put_item :: "store \<Rightarrow> pystr \<Rightarrow> pystr \<Rightarrow> pystr \<Rightarrow> rating list \<Rightarrow> store" where
  "put_item d u l i rs =
     (case map_of d u of
        None \<Rightarrow> d
      | Some ls \<Rightarrow>
          (case map_of ls l of
             None \<Rightarrow> d
           | Some its \<Rightarrow> AList.update u (AList.update l (AList.update i rs its) ls) d))"

definition drop_list :: "store \<Rightarrow> pystr \<Rightarrow> pystr \<Rightarrow> store" where
  "drop_list d u l =
     (case map_of d u of None \<Rightarrow> d | Some ls \<Rightarrow> AList.update u (AList.delete l ls) d)"

definition drop_item :: "store \<Rightarrow> pystr \<Rightarrow> pystr \<Rightarrow> pystr \<Rightarrow> store" where
  "drop_item d u l i =
     (case map_of d u of
        None \<Rightarrow> d
      | Some ls \<Rightarrow>
          (case map_of ls l of
             None \<Rightarrow> d
           | Some its \<Rightarrow> AList.update u (AList.update l (AList.delete i its) ls) d))"

text \<open>
  \<open>create_list\<close> with the value it returns: the method has no \<open>return\<close> statement, so
  on both paths the call returns \<open>None\<close>, the one value of type \<open>unit\<close>.
\<close>

definition create_list_call :: "store \<Rightarrow> pystr \<Rightarrow> pystr \<Rightarrow> unit \<times> store" where
  "create_list_call d user_id list_name =
     (let (ls, d1) = data_user d user_id
      in if \<not> contains ls list_name then ((), set_list d1 user_id list_name [])
         else ((), d1))"

text \<open>No user has two lists of one name.\<close>

definition names_distinct :: "store \<Rightarrow> bool" where
  "names_distinct d = list_all (\<lambda>(u, ls). distinct (map fst ls)) d"

section \<open>Python string functions used by the handlers\<close>

text \<open>
  The characters that \<open>str.split()\<close> without argument treats as separators are those
  for which \<open>str.isspace\<close> holds.
\<close>

definition py_isspace :: "nat \<Rightarrow> bool" where
  "py_isspace c =
     ((9 \<le> c \<and> c \<le> 13) \<or> (28 \<le> c \<and> c \<le> 32) \<or> c = 133 \<or> c = 160 \<or> c = 5760
      \<or> (8192 \<le> c \<and> c \<le> 8202) \<or> c = 8232 \<or> c = 8233 \<or> c = 8239 \<or> c = 8287
      \<or> c = 12288)"

fun split_from :: "pystr \<Rightarrow> pystr \<Rightarrow> pystr list" where
  "split_from cur [] = (if cur = [] then [] else [cur])"
| "split_from cur (c # cs) =
     (if py_isspace c then (if cur = [] then split_from [] cs else cur # split_from [] cs)
      else split_from (cur @ [c]) cs)"

definition py_split :: "pystr \<Rightarrow> pystr list" where
  \<comment> \<open>\<open>s.split()\<close>: the maximal runs of characters that are not whitespace\<close>
  "py_split s = split_from [] s"

fun digits :: "nat \<Rightarrow> pystr" where
  "digits n = (if n < 10 then [48 + n] else digits (n div 10) @ [48 + n mod 10])"

declare digits.simps [simp del]

definition py_str :: "int \<Rightarrow> pystr" where
  \<comment> \<open>\<open>str(n)\<close> and \<open>f"{n}"\<close> for an integer\<close>
  "py_str n = (if n < 0 then 45 # digits (nat (- n)) else digits (nat n))"

fun py_remove :: "pystr \<Rightarrow> pystr \<Rightarrow> pystr" where
  \<comment> \<open>\<open>s.replace(old, "")\<close>: the occurrences of \<open>old\<close> are removed from left to right\<close>
  "py_remove old [] = []"
| "py_remove old (c # cs) =
     (if old \<noteq> [] \<and> take (length old) (c # cs) = old
      then py_remove old (drop (length old) (c # cs))
      else c # py_remove old cs)"

section \<open>The handlers (bot_handlers_new.py, bot_handlers_spanish.py)\<close>

text \<open>The conversation states; \<open>ConversationHandler.END\<close> is the library's constant -1.\<close>

definition CREATE_LIST :: int where
  "CREATE_LIST = 0"

definition END :: int where
  "END = - 1"

definition ADMIN_COMMANDS :: "pystr list" where
  "ADMIN_COMMANDS =
     [lit ''/newlist'', lit ''/deletelist'', lit ''/deleteitem'', lit ''/deleterating'',
      lit ''/clearratings'']"

text \<open>
  The parts of an update that the access check reads. \<open>effective_chat\<close>,
  \<open>effective_user\<close>, \<open>message\<close> and the text of a message may each be \<open>None\<close>; the user
  is represented by its id.
\<close>

record tg_chat =
  chat_id :: int
  chat_type :: pystr

record tg_message =
  msg_text :: "pystr option"

record tg_update =
  effective_chat :: "tg_chat option"
  effective_user :: "int option"
  message :: "tg_message option"

text \<open>
  \<open>context.bot.get_chat_member(chat_id, user_id)\<close> returns a chat member, of which
  the status is read, or raises an exception.
\<close>

datatype member_lookup = Member pystr | Raises py_error

definition is_admin :: "(int \<Rightarrow> int \<Rightarrow> member_lookup) \<Rightarrow> tg_update \<Rightarrow> py_error + bool" where
  "is_admin get_chat_member upd =
     (case effective_chat upd of
        None \<Rightarrow> Inl AttributeError
      | Some ch \<Rightarrow>
          (case effective_user upd of
             None \<Rightarrow> Inl AttributeError
           | Some user_id \<Rightarrow>
               if chat_type ch = lit ''private'' then Inr True
               else (case get_chat_member (chat_id ch) user_id of
                       Member status \<Rightarrow>
                         Inr (status \<in> set [lit ''creator'', lit ''administrator''])
                     | Raises e \<Rightarrow> Inr False)))"

text \<open>
  What a decorated handler does with an update: it sends the denial and returns
  \<open>END\<close> without calling the handler, or it returns what the handler returns.
\<close>

datatype 'r gated = Denied pystr int | Handled 'r

definition command_of :: "tg_update \<Rightarrow> py_error + pystr" where
  \<comment> \<open>\<open>update.message.text.split()[0] if update.message and update.message.text else ""\<close>\<close>
  "command_of upd =
     (case message upd of
        None \<Rightarrow> Inr []
      | Some m \<Rightarrow>
          (case msg_text m of
             None \<Rightarrow> Inr []
           | Some t \<Rightarrow>
               if t = [] then Inr []
               else (case py_split t of [] \<Rightarrow> Inl IndexError | tok # rest \<Rightarrow> Inr tok)))"

definition admin_required ::
  "pystr \<Rightarrow> (tg_update \<Rightarrow> 'r) \<Rightarrow> (int \<Rightarrow> int \<Rightarrow> member_lookup) \<Rightarrow> tg_update \<Rightarrow> py_error + 'r gated" where
  "admin_required denial func get_chat_member upd =
     (case is_admin get_chat_member upd of
        Inl e \<Rightarrow> Inl e
      | Inr True \<Rightarrow> Inr (Handled (func upd))
      | Inr False \<Rightarrow>
          (case command_of upd of
             Inl e \<Rightarrow> Inl e
           | Inr command \<Rightarrow>
               if command \<in> set ADMIN_COMMANDS then Inr (Denied denial END)
               else Inr (Handled (func upd))))"


definition denial_spanish :: pystr where
  "denial_spanish =
     lit ''Este comando solo est'' @ [225] @ lit '' disponible para administradores del chat.''"

text \<open>
  The handler \<open>create_list\<close> of the conversation that creates a list, given the sender's
  id and the text of the message: the reply, the next state and the store.
\<close>

definition handlers_create_list :: "store \<Rightarrow> int \<Rightarrow> pystr \<Rightarrow> (pystr \<times> int) \<times> store" where
  "handlers_create_list d sender msg =
     (let list_name = msg; user_id = py_str sender;
          (ex, d1) = list_exists d user_id list_name
      in if ex
         then ((lit ''You already have a list named '' @ [39] @ list_name @ [39]
                  @ lit ''. Please choose a different name.'', CREATE_LIST), d1)
         else ((lit ''Great! I'' @ [39] @ lit ''ve created a new list called '' @ [39]
                  @ list_name @ [39] @ lit ''.'' @ [10]
                  @ lit ''You can add items to it with /additem'', END),
               create_list d1 user_id list_name))"


text \<open>
  The handler \<open>view_list_ratings\<close> exists once per language; the two copies differ in
  the texts only.
\<close>

record texts =
  list_is_empty_1 :: pystr
  list_is_empty_2 :: pystr
  ratings_header :: pystr
  average_label :: pystr
  all_ratings_line :: pystr
  not_yet_rated :: pystr
  truncated_notice :: pystr

definition texts_new :: texts where
  "texts_new =
     \<lparr> list_is_empty_1 = lit ''The list '' @ [39],
       list_is_empty_2 = [39] @ lit '' is empty. Add items with /additem'',
       ratings_header = lit ''Ratings for items in '' @ [39],
       average_label = lit ''  Average: '',
       all_ratings_line = lit ''  All ratings:'' @ [10],
       not_yet_rated = lit '': Not yet rated'' @ [10, 10],
       truncated_notice = [10, 10] @ lit ''... (message truncated due to length)'' \<rparr>"

definition texts_spanish :: texts where
  "texts_spanish =
     \<lparr> list_is_empty_1 = lit ''La lista '' @ [39],
       list_is_empty_2 =
         [39] @ lit '' est'' @ [225] @ lit '' vac'' @ [237] @ lit ''a. A'' @ [241]
           @ lit ''ade elementos con /additem'',
       ratings_header = lit ''Valoraciones para elementos en '' @ [39],
       average_label = lit ''  Promedio: '',
       all_ratings_line = lit ''  Todas las valoraciones:'' @ [10],
       not_yet_rated = lit '': Sin valorar a'' @ [250] @ lit ''n'' @ [10, 10],
       truncated_notice = [10, 10] @ lit ''... (mensaje truncado debido a su longitud)'' \<rparr>"

text \<open>
  The inner loop over \<open>enumerate(ratings, 1)\<close>, the loop over \<open>items.items()\<close> and the
  message before the length check. \<open>fmt\<close> stands for the formatting \<open>{avg_rating:.1f}\<close>.
\<close>

fun rating_lines :: "nat \<Rightarrow> rating list \<Rightarrow> pystr" where
  "rating_lines i [] = []"
| "rating_lines i ((rating, comment) # rs) =
     lit ''    '' @ py_str (int i) @ lit ''. '' @ py_str rating @ lit ''/10''
       @ (if comment \<noteq> [] then lit '' - '' @ [34] @ comment @ [34] else [])
       @ [10] @ rating_lines (Suc i) rs"

fun item_blocks ::
  "texts \<Rightarrow> (rat \<Rightarrow> pystr) \<Rightarrow> store \<Rightarrow> pystr \<Rightarrow> pystr \<Rightarrow> item_dict \<Rightarrow> py_error + (pystr \<times> store)" where
  "item_blocks t fmt d user_id list_name [] = Inr ([], d)"
| "item_blocks t fmt d user_id list_name ((item_name, ratings) # rest) =
     (if ratings \<noteq> []
      then (case get_average_rating d user_id list_name item_name of
              Inl e \<Rightarrow> Inl e
            | Inr (avg_rating, d1) \<Rightarrow>
                (case item_blocks t fmt d1 user_id list_name rest of
                   Inl e \<Rightarrow> Inl e
                 | Inr (rendered, d2) \<Rightarrow>
                     Inr ([8226, 32] @ item_name @ [10]
                            @ average_label t @ fmt avg_rating @ lit ''/10'' @ [10]
                            @ all_ratings_line t
                            @ rating_lines 1 ratings
                            @ [10] @ rendered, d2)))
      else (case item_blocks t fmt d user_id list_name rest of
              Inl e \<Rightarrow> Inl e
            | Inr (rendered, d2) \<Rightarrow> Inr ([8226, 32] @ item_name @ not_yet_rated t @ rendered, d2)))"

definition ratings_message ::
  "texts \<Rightarrow> (rat \<Rightarrow> pystr) \<Rightarrow> store \<Rightarrow> pystr \<Rightarrow> pystr \<Rightarrow> item_dict \<Rightarrow> py_error + (pystr \<times> store)" where
  "ratings_message t fmt d user_id list_name items =
     (case item_blocks t fmt d user_id list_name items of
        Inl e \<Rightarrow> Inl e
      | Inr (body, d1) \<Rightarrow>
          Inr (ratings_header t @ list_name @ [39] @ lit '':'' @ [10, 10] @ body, d1))"

definition view_list_ratings ::
  "texts \<Rightarrow> (rat \<Rightarrow> pystr) \<Rightarrow> store \<Rightarrow> int \<Rightarrow> pystr \<Rightarrow> py_error + ((pystr \<times> int) \<times> store)" where
  "view_list_ratings t fmt d sender query_data =
     (let user_id = py_str sender;
          list_name = py_remove (lit ''ratings_'') query_data;
          (items, d1) = get_list_items d user_id list_name
      in if items = []
         then Inr ((list_is_empty_1 t @ list_name @ list_is_empty_2 t, END), d1)
         else (case ratings_message t fmt d1 user_id list_name items of
                 Inl e \<Rightarrow> Inl e
               | Inr (msg, d2) \<Rightarrow>
                   Inr ((if length msg > 4000
                         then take 3950 msg @ truncated_notice t
                         else msg, END), d2)))"


section \<open>Reading and writing the nested dictionaries\<close>

lemma data_user_present: "map_of d u = Some ls \<Longrightarrow> data_user d u = (ls, d)"
  by (simp add: data_user_def dd_get_def)

lemma data_user_absent: "map_of d u = None \<Longrightarrow> data_user d u = ([], d @ [(u, [])])"
  by (simp add: data_user_def dd_get_def)

lemma snd_data_user: "snd (data_user d u) = (if contains d u then d else d @ [(u, [])])"
  by (cases "map_of d u") (simp_all add: data_user_present data_user_absent contains_def)

lemma map_of_touched:
  "map_of (snd (data_user d u)) v = (if v = u \<and> map_of d u = None then Some [] else map_of d v)"
  by (auto simp: data_user_def dd_get_def map_add_def split: option.splits)

lemma lookup2_touched: "lookup2 (snd (data_user d u)) v l = lookup2 d v l"
  by (simp add: lookup2_def map_of_touched)

lemma lookup3_touched: "lookup3 (snd (data_user d u)) v l i = lookup3 d v l i"
  by (simp add: lookup3_def lookup2_touched)

lemma data_list_present:
  "map_of d u = Some ls \<Longrightarrow> map_of ls l = Some its \<Longrightarrow> data_list d u l = (its, d)"
  by (simp add: data_list_def data_user_present dd_get_def AList.update_triv)

lemma data_item_present:
  "map_of d u = Some ls \<Longrightarrow> map_of ls l = Some its \<Longrightarrow> map_of its i = Some rs \<Longrightarrow>
   data_item d u l i = (rs, d)"
  by (simp add: data_item_def data_user_present dd_get_def AList.update_triv)

lemma set_list_present:
  "map_of d u = Some ls \<Longrightarrow> set_list d u l v = AList.update u (AList.update l v ls) d"
  by (simp add: set_list_def data_user_present)

lemma set_item_present:
  "map_of d u = Some ls \<Longrightarrow> map_of ls l = Some its \<Longrightarrow>
   set_item d u l i v = AList.update u (AList.update l (AList.update i v its) ls) d"
  by (simp add: set_item_def data_user_present dd_get_def)

lemma lookup2_SomeD:
  "lookup2 d u l = Some its \<Longrightarrow> \<exists>ls. map_of d u = Some ls \<and> map_of ls l = Some its"
  by (auto simp: lookup2_def split: option.splits)

lemma lookup3_SomeD:
  "lookup3 d u l i = Some rs \<Longrightarrow>
   \<exists>ls its. map_of d u = Some ls \<and> map_of ls l = Some its \<and> map_of its i = Some rs"
  by (auto simp: lookup3_def lookup2_def split: option.splits)

lemma lookup3_lookup2: "lookup3 d u l i \<noteq> None \<Longrightarrow> lookup2 d u l \<noteq> None"
  by (auto simp: lookup3_def split: option.splits)

lemma lookup3_put_item:
  "lookup2 d u l \<noteq> None \<Longrightarrow>
   lookup3 (put_item d u l i rs) u' l' i' =
     (if u' = u \<and> l' = l \<and> i' = i then Some rs else lookup3 d u' l' i')"
  by (auto simp: put_item_def lookup3_def lookup2_def AList.update_conv' split: option.splits)

lemma lookup2_put_item_dom:
  "(lookup2 (put_item d u l i rs) u' l' \<noteq> None) = (lookup2 d u' l' \<noteq> None)"
  by (auto simp: put_item_def lookup2_def AList.update_conv' split: option.splits)

section \<open>The methods of the store in closed form\<close>

lemma list_exists_eq: "list_exists d u l = (lookup2 d u l \<noteq> None, snd (data_user d u))"
  by (cases "map_of d u")
     (simp_all add: list_exists_def data_user_present data_user_absent lookup2_def contains_def)

lemma item_exists_eq: "item_exists d u l i = (lookup3 d u l i \<noteq> None, snd (data_user d u))"
proof (cases "map_of d u")
  case None
  then show ?thesis
    by (simp add: item_exists_def data_user_absent lookup3_def lookup2_def contains_def)
next
  case (Some ls)
  then show ?thesis
    by (cases "map_of ls l")
       (simp_all add: item_exists_def data_user_present data_list_present lookup3_def
          lookup2_def contains_def)
qed

lemma get_list_items_eq:
  "get_list_items d u l =
     (case lookup2 d u l of None \<Rightarrow> [] | Some its \<Rightarrow> its, snd (data_user d u))"
proof (cases "map_of d u")
  case None
  then show ?thesis
    by (simp add: get_list_items_def list_exists_eq data_user_absent lookup2_def)
next
  case (Some ls)
  then show ?thesis
    by (cases "map_of ls l")
       (simp_all add: get_list_items_def list_exists_eq data_user_present data_list_present
          lookup2_def)
qed

lemma get_item_ratings_eq:
  "get_item_ratings d u l i =
     (case lookup3 d u l i of None \<Rightarrow> [] | Some rs \<Rightarrow> rs, snd (data_user d u))"
proof (cases "lookup3 d u l i")
  case None
  then show ?thesis by (simp add: get_item_ratings_def item_exists_eq)
next
  case (Some rs)
  from lookup3_SomeD[OF this] obtain ls its where
    "map_of d u = Some ls" "map_of ls l = Some its" "map_of its i = Some rs" by blast
  with Some show ?thesis
    by (simp add: get_item_ratings_def item_exists_eq data_user_present data_item_present)
qed

lemma add_rating_eq:
  "add_rating d u l i s c =
     (case lookup3 d u l i of
        None \<Rightarrow> snd (data_user d u)
      | Some rs \<Rightarrow> if 0 \<le> s \<and> s \<le> 10 then put_item d u l i (rs @ [(s, c)]) else d)"
proof (cases "lookup3 d u l i")
  case None
  then show ?thesis by (simp add: add_rating_def item_exists_eq)
next
  case (Some rs)
  from lookup3_SomeD[OF this] obtain ls its where
    "map_of d u = Some ls" "map_of ls l = Some its" "map_of its i = Some rs" by blast
  with Some show ?thesis
    by (simp add: add_rating_def item_exists_eq data_user_present data_item_present
        set_item_present put_item_def)
qed

lemma fst_list_exists: "fst (list_exists d u l) = (lookup2 d u l \<noteq> None)"
  by (simp add: list_exists_eq)

lemma fst_item_exists: "fst (item_exists d u l i) = (lookup3 d u l i \<noteq> None)"
  by (simp add: item_exists_eq)

lemma fst_get_item_ratings:
  "fst (get_item_ratings d u l i) = (case lookup3 d u l i of None \<Rightarrow> [] | Some rs \<Rightarrow> rs)"
  by (simp add: get_item_ratings_eq)

section \<open>Adding a rating\<close>

text \<open>
  Claim C1, as amended. If the item exists and \<open>0 \<le> s \<le> 10\<close>, \<open>add_rating\<close> appends
  exactly the pair \<open>(s, c)\<close> at the end of the item's rating sequence: the sequence
  read afterwards is the previous one followed by \<open>(s, c)\<close>, its last element is
  \<open>(s, c)\<close>, it is one longer, and no other item changes. If the item is absent or
  \<open>s\<close> is outside \<open>[0, 10]\<close>, the call raises no error (no statement of it can raise)
  and leaves every list, item and rating as it was: the store is unchanged when the
  user already has a namespace, and otherwise it gains only the empty namespace that
  reading \<open>self.data[user_id]\<close> creates.
\<close>

theorem add_rating_effect:
  "(fst (item_exists d u l i) \<and> 0 \<le> s \<and> s \<le> 10 \<longrightarrow>
      fst (get_item_ratings (add_rating d u l i s c) u l i)
        = fst (get_item_ratings d u l i) @ [(s, c)]
      \<and> last (fst (get_item_ratings (add_rating d u l i s c) u l i)) = (s, c)
      \<and> length (fst (get_item_ratings (add_rating d u l i s c) u l i))
          = Suc (length (fst (get_item_ratings d u l i)))
      \<and> (\<forall>u' l' i'. (u', l', i') \<noteq> (u, l, i) \<longrightarrow>
            fst (item_exists (add_rating d u l i s c) u' l' i') = fst (item_exists d u' l' i')
            \<and> fst (get_item_ratings (add_rating d u l i s c) u' l' i')
                = fst (get_item_ratings d u' l' i')))
   \<and> (\<not> (fst (item_exists d u l i) \<and> 0 \<le> s \<and> s \<le> 10) \<longrightarrow>
        add_rating d u l i s c = (if contains d u then d else d @ [(u, [])]))"
proof (cases "lookup3 d u l i")
  case None
  then show ?thesis
    by (simp add: fst_item_exists add_rating_eq snd_data_user)
next
  case (Some rs)
  then have l2: "lookup2 d u l \<noteq> None" using lookup3_lookup2[of d u l i] by simp
  from lookup3_SomeD[OF Some] have "contains d u" by (auto simp: contains_def)
  with Some l2 show ?thesis
    by (auto simp: fst_item_exists fst_get_item_ratings add_rating_eq lookup3_put_item)
qed

text \<open>
  Claim C1 as stated fails: rating an item of a user the store has never seen leaves
  a store that is not the one before the call.
\<close>

theorem add_rating_unchanged_counterexample:
  "\<not> fst (item_exists init (lit ''7'') (lit ''Movies'') (lit ''Dune''))
   \<and> add_rating init (lit ''7'') (lit ''Movies'') (lit ''Dune'') 5 [] \<noteq> init"
  by code_simp

theorem add_rating_effect_witness:
  "fst (item_exists (add_item init (lit ''7'') (lit ''Movies'') (lit ''Dune''))
         (lit ''7'') (lit ''Movies'') (lit ''Dune''))
   \<and> fst (get_item_ratings
            (add_rating (add_item init (lit ''7'') (lit ''Movies'') (lit ''Dune''))
               (lit ''7'') (lit ''Movies'') (lit ''Dune'') 7 (lit ''great''))
            (lit ''7'') (lit ''Movies'') (lit ''Dune'')) = [(7, lit ''great'')]
   \<and> add_rating (add_item init (lit ''7'') (lit ''Movies'') (lit ''Dune''))
        (lit ''7'') (lit ''Movies'') (lit ''Dune'') 11 (lit ''great'')
       = add_item init (lit ''7'') (lit ''Movies'') (lit ''Dune'')
   \<and> add_rating init (lit ''7'') (lit ''Movies'') (lit ''Dune'') 7 [] = [(lit ''7'', [])]"
proof -
  let ?d = "add_item init (lit ''7'') (lit ''Movies'') (lit ''Dune'')"
  have e: "fst (item_exists ?d (lit ''7'') (lit ''Movies'') (lit ''Dune''))" by code_simp
  have r: "fst (get_item_ratings ?d (lit ''7'') (lit ''Movies'') (lit ''Dune'')) = []"
    by code_simp
  have c: "contains ?d (lit ''7'')" by code_simp
  have n: "\<not> fst (item_exists init (lit ''7'') (lit ''Movies'') (lit ''Dune''))" by code_simp
  have i: "\<not> contains init (lit ''7'')" "init = []" by code_simp+
  from add_rating_effect[of ?d "lit ''7''" "lit ''Movies''" "lit ''Dune''" 7 "lit ''great''"] e r
  have 1: "fst (get_item_ratings (add_rating ?d (lit ''7'') (lit ''Movies'') (lit ''Dune'') 7
             (lit ''great'')) (lit ''7'') (lit ''Movies'') (lit ''Dune'')) = [(7, lit ''great'')]"
    by simp
  from add_rating_effect[of ?d "lit ''7''" "lit ''Movies''" "lit ''Dune''" 11 "lit ''great''"] c
  have 2: "add_rating ?d (lit ''7'') (lit ''Movies'') (lit ''Dune'') 11 (lit ''great'') = ?d"
    by simp
  from add_rating_effect[of init "lit ''7''" "lit ''Movies''" "lit ''Dune''" 7 "[]"] n i
  have 3: "add_rating init (lit ''7'') (lit ''Movies'') (lit ''Dune'') 7 [] = [(lit ''7'', [])]"
    by simp
  from e 1 2 3 show ?thesis by blast
qed


section \<open>Deleting one rating\<close>

lemma list_del_in_range:
  "0 \<le> k \<Longrightarrow> k < int (length xs) \<Longrightarrow>
   list_del xs k = Inr (take (nat k) xs @ drop (Suc (nat k)) xs)"
  by (simp add: list_del_def Let_def)

lemma delete_rating_eq:
  "delete_rating d u l i k =
     (case lookup3 d u l i of
        None \<Rightarrow> Inr (False, snd (data_user d u))
      | Some rs \<Rightarrow>
          if k < 0 \<or> int (length rs) \<le> k then Inr (False, d)
          else Inr (True, put_item d u l i (take (nat k) rs @ drop (Suc (nat k)) rs)))"
proof (cases "lookup3 d u l i")
  case None
  then show ?thesis by (simp add: delete_rating_def item_exists_eq)
next
  case (Some rs)
  from lookup3_SomeD[OF this] obtain ls its where
    "map_of d u = Some ls" "map_of ls l = Some its" "map_of its i = Some rs" by blast
  with Some show ?thesis
    by (simp add: delete_rating_def item_exists_eq data_user_present data_item_present
        set_item_present put_item_def list_del_in_range)
qed

lemma nth_removed:
  "k < length xs \<Longrightarrow> j < length xs - 1 \<Longrightarrow>
   (take k xs @ drop (Suc k) xs) ! j = (if j < k then xs ! j else xs ! Suc j)"
  by (auto simp: nth_append min_def)

text \<open>
  Claim C2, as amended. If the item exists and \<open>0 \<le> k < len(ratings)\<close>,
  \<open>delete_rating\<close> returns true and removes exactly the element at index \<open>k\<close>: the
  ratings before index \<open>k\<close> keep their index, every rating after it moves down by one,
  the sequence is one shorter, the item itself stays (also when its last rating goes)
  and no other item changes. If the item is absent or
  \<open>k\<close> is outside \<open>[0, len)\<close>, it returns false, raises no error and leaves every
  list, item and rating as it was: the store is unchanged when the user already has a
  namespace, and otherwise it gains only the empty namespace that reading
  \<open>self.data[user_id]\<close> creates.
\<close>

theorem delete_rating_effect:
  "(fst (item_exists d u l i) \<and> 0 \<le> k \<and> k < int (length (fst (get_item_ratings d u l i))) \<longrightarrow>
      (\<exists>d'. delete_rating d u l i k = Inr (True, d')
         \<and> fst (item_exists d' u l i)
         \<and> fst (get_item_ratings d' u l i)
             = take (nat k) (fst (get_item_ratings d u l i))
                 @ drop (Suc (nat k)) (fst (get_item_ratings d u l i))
         \<and> length (fst (get_item_ratings d' u l i))
             = length (fst (get_item_ratings d u l i)) - 1
         \<and> (\<forall>j. j < nat k \<longrightarrow>
               fst (get_item_ratings d' u l i) ! j = fst (get_item_ratings d u l i) ! j)
         \<and> (\<forall>j. nat k \<le> j \<and> j < length (fst (get_item_ratings d u l i)) - 1 \<longrightarrow>
               fst (get_item_ratings d' u l i) ! j = fst (get_item_ratings d u l i) ! Suc j)
         \<and> (\<forall>u' l' i'. (u', l', i') \<noteq> (u, l, i) \<longrightarrow>
               fst (item_exists d' u' l' i') = fst (item_exists d u' l' i')
               \<and> fst (get_item_ratings d' u' l' i') = fst (get_item_ratings d u' l' i'))))
   \<and> (\<not> (fst (item_exists d u l i) \<and> 0 \<le> k
          \<and> k < int (length (fst (get_item_ratings d u l i)))) \<longrightarrow>
        delete_rating d u l i k = Inr (False, if contains d u then d else d @ [(u, [])]))"
proof (cases "lookup3 d u l i")
  case None
  then show ?thesis
    by (simp add: fst_item_exists delete_rating_eq snd_data_user)
next
  case (Some rs)
  then have l2: "lookup2 d u l \<noteq> None" using lookup3_lookup2[of d u l i] by simp
  from lookup3_SomeD[OF Some] have cu: "contains d u" by (auto simp: contains_def)
  show ?thesis
  proof (cases "0 \<le> k \<and> k < int (length rs)")
    case False
    with Some cu show ?thesis
      by (auto simp: fst_item_exists fst_get_item_ratings delete_rating_eq)
  next
    case True
    then have kl: "nat k < length rs" by linarith
    let ?d' = "put_item d u l i (take (nat k) rs @ drop (Suc (nat k)) rs)"
    have a: "delete_rating d u l i k = Inr (True, ?d')"
      using Some True by (simp add: delete_rating_eq)
    have b: "fst (get_item_ratings ?d' u l i) = take (nat k) rs @ drop (Suc (nat k)) rs"
      using l2 by (simp add: fst_get_item_ratings lookup3_put_item)
    have still: "fst (item_exists ?d' u l i)"
      using l2 by (simp add: fst_item_exists lookup3_put_item)
    have c: "length (take (nat k) rs @ drop (Suc (nat k)) rs) = length rs - 1"
      using kl by simp
    have e: "\<forall>j. j < nat k \<longrightarrow> (take (nat k) rs @ drop (Suc (nat k)) rs) ! j = rs ! j"
      using kl by (simp add: nth_append)
    have f: "\<forall>j. nat k \<le> j \<and> j < length rs - 1 \<longrightarrow>
               (take (nat k) rs @ drop (Suc (nat k)) rs) ! j = rs ! Suc j"
      using kl by (simp add: nth_removed)
    have g: "\<forall>u' l' i'. (u', l', i') \<noteq> (u, l, i) \<longrightarrow>
               fst (item_exists ?d' u' l' i') = fst (item_exists d u' l' i')
               \<and> fst (get_item_ratings ?d' u' l' i') = fst (get_item_ratings d u' l' i')"
      using l2 by (auto simp: fst_item_exists fst_get_item_ratings lookup3_put_item)
    have old: "fst (get_item_ratings d u l i) = rs" "fst (item_exists d u l i)"
      using Some by (simp_all add: fst_get_item_ratings fst_item_exists)
    show ?thesis
      using True a still b c e f g by (simp add: old)
  qed
qed

text \<open>
  Claim C2 as stated fails: deleting a rating of a user the store has never seen
  returns false, but the store is not the one before the call.
\<close>

theorem delete_rating_unchanged_counterexample:
  "\<not> fst (item_exists init (lit ''7'') (lit ''Movies'') (lit ''Dune''))
   \<and> delete_rating init (lit ''7'') (lit ''Movies'') (lit ''Dune'') 0 \<noteq> Inr (False, init)"
  by code_simp


theorem delete_rating_effect_witness:
  "fst (item_exists
         [(lit ''7'', [(lit ''Movies'', [(lit ''Dune'', [(7, lit ''a''), (8, lit ''b''), (9, lit ''c'')])])])]
         (lit ''7'') (lit ''Movies'') (lit ''Dune''))
   \<and> (\<exists>d'. delete_rating
              [(lit ''7'', [(lit ''Movies'', [(lit ''Dune'', [(7, lit ''a''), (8, lit ''b''), (9, lit ''c'')])])])]
              (lit ''7'') (lit ''Movies'') (lit ''Dune'') 1 = Inr (True, d')
         \<and> fst (get_item_ratings d' (lit ''7'') (lit ''Movies'') (lit ''Dune''))
             = [(7, lit ''a''), (9, lit ''c'')])
   \<and> delete_rating
        [(lit ''7'', [(lit ''Movies'', [(lit ''Dune'', [(7, lit ''a''), (8, lit ''b''), (9, lit ''c'')])])])]
        (lit ''7'') (lit ''Movies'') (lit ''Dune'') 3
       = Inr (False,
           [(lit ''7'', [(lit ''Movies'', [(lit ''Dune'', [(7, lit ''a''), (8, lit ''b''), (9, lit ''c'')])])])])"
proof -
  let ?d = "[(lit ''7'', [(lit ''Movies'', [(lit ''Dune'', [(7, lit ''a''), (8, lit ''b''), (9, lit ''c'')])])])]"
  have e: "fst (item_exists ?d (lit ''7'') (lit ''Movies'') (lit ''Dune''))" by code_simp
  have r: "fst (get_item_ratings ?d (lit ''7'') (lit ''Movies'') (lit ''Dune''))
             = [(7, lit ''a''), (8, lit ''b''), (9, lit ''c'')]" by code_simp
  have c: "contains ?d (lit ''7'')" by code_simp
  from delete_rating_effect[of ?d "lit ''7''" "lit ''Movies''" "lit ''Dune''" 1] e
  have 1: "\<exists>d'. delete_rating ?d (lit ''7'') (lit ''Movies'') (lit ''Dune'') 1 = Inr (True, d')
         \<and> fst (get_item_ratings d' (lit ''7'') (lit ''Movies'') (lit ''Dune''))
             = [(7, lit ''a''), (9, lit ''c'')]"
    unfolding r by auto
  from delete_rating_effect[of ?d "lit ''7''" "lit ''Movies''" "lit ''Dune''" 3] c
  have 2: "delete_rating ?d (lit ''7'') (lit ''Movies'') (lit ''Dune'') 3 = Inr (False, ?d)"
    unfolding r by simp
  from e 1 2 show ?thesis by blast
qed

section \<open>Deleting a list\<close>

lemma delete_list_eq:
  "delete_list d u l =
     (case lookup2 d u l of
        None \<Rightarrow> Inr (False, snd (data_user d u))
      | Some its \<Rightarrow> Inr (True, drop_list d u l))"
proof (cases "lookup2 d u l")
  case None
  then show ?thesis by (simp add: delete_list_def list_exists_eq)
next
  case (Some its)
  from lookup2_SomeD[OF this] obtain ls where
    "map_of d u = Some ls" "map_of ls l = Some its" by blast
  with Some show ?thesis
    by (simp add: delete_list_def list_exists_eq data_user_present dict_del_def contains_def
        drop_list_def)
qed

lemma lookup2_drop_list:
  "lookup2 (drop_list d u l) u' l' = (if u' = u \<and> l' = l then None else lookup2 d u' l')"
  by (auto simp: drop_list_def lookup2_def AList.update_conv' AList.delete_conv'
      split: option.splits)

lemma map_of_drop_list: "u' \<noteq> u \<Longrightarrow> map_of (drop_list d u l) u' = map_of d u'"
  by (auto simp: drop_list_def AList.update_conv' split: option.splits)

lemma fst_get_list_items:
  "fst (get_list_items d u l) = (case lookup2 d u l of None \<Rightarrow> [] | Some its \<Rightarrow> its)"
  by (simp add: get_list_items_eq)

text \<open>
  Claim C6, as amended. When the list is absent, \<open>delete_list\<close> returns false, raises
  no error and leaves every list, item and rating as it was: the store is unchanged
  when the user already has a namespace, and otherwise it gains only the empty
  namespace that reading \<open>self.data[user_id]\<close> creates. When the list exists, it
  returns true; afterwards \<open>list_exists\<close> is false for it, \<open>item_exists\<close> is false and
  \<open>get_item_ratings\<close> is empty for every item name under it, every other list of the
  user is as before, and so is the data of every other user.
\<close>

theorem delete_list_effect:
  "(\<not> fst (list_exists d u l) \<longrightarrow>
      delete_list d u l = Inr (False, if contains d u then d else d @ [(u, [])]))
   \<and> (fst (list_exists d u l) \<longrightarrow>
        (\<exists>d'. delete_list d u l = Inr (True, d')
           \<and> \<not> fst (list_exists d' u l)
           \<and> (\<forall>i. \<not> fst (item_exists d' u l i) \<and> fst (get_item_ratings d' u l i) = [])
           \<and> (\<forall>l'. l' \<noteq> l \<longrightarrow>
                 fst (list_exists d' u l') = fst (list_exists d u l')
                 \<and> fst (get_list_items d' u l') = fst (get_list_items d u l'))
           \<and> (\<forall>u'. u' \<noteq> u \<longrightarrow> map_of d' u' = map_of d u')))"
proof (cases "lookup2 d u l")
  case None
  then show ?thesis
    by (simp add: fst_list_exists delete_list_eq snd_data_user)
next
  case (Some its)
  then show ?thesis
    by (simp add: fst_list_exists fst_item_exists fst_get_item_ratings fst_get_list_items
        delete_list_eq lookup2_drop_list map_of_drop_list lookup3_def)
qed

text \<open>
  Claim C6 as stated fails: deleting a list of a user the store has never seen
  returns false, but the store is not the one before the call.
\<close>

theorem delete_list_unchanged_counterexample:
  "\<not> fst (list_exists init (lit ''7'') (lit ''Movies''))
   \<and> delete_list init (lit ''7'') (lit ''Movies'') \<noteq> Inr (False, init)"
  by code_simp

theorem delete_list_effect_witness:
  "fst (list_exists
         [(lit ''7'', [(lit ''Movies'', [(lit ''Dune'', [(9, [])])]), (lit ''Books'', [])])]
         (lit ''7'') (lit ''Movies''))
   \<and> delete_list
        [(lit ''7'', [(lit ''Movies'', [(lit ''Dune'', [(9, [])])]), (lit ''Books'', [])])]
        (lit ''7'') (lit ''Movies'')
       = Inr (True, [(lit ''7'', [(lit ''Books'', [])])])
   \<and> \<not> fst (item_exists [(lit ''7'', [(lit ''Books'', [])])]
              (lit ''7'') (lit ''Movies'') (lit ''Dune''))
   \<and> \<not> fst (list_exists [(lit ''7'', [(lit ''Books'', [])])] (lit ''7'') (lit ''Music''))
   \<and> delete_list [(lit ''7'', [(lit ''Books'', [])])] (lit ''7'') (lit ''Music'')
       = Inr (False, [(lit ''7'', [(lit ''Books'', [])])])"
proof -
  let ?d = "[(lit ''7'', [(lit ''Movies'', [(lit ''Dune'', [(9, [])])]), (lit ''Books'', [])])]"
  let ?e = "[(lit ''7'', [(lit ''Books'', [])])]"
  have x: "fst (list_exists ?d (lit ''7'') (lit ''Movies''))" by code_simp
  have v: "delete_list ?d (lit ''7'') (lit ''Movies'') = Inr (True, ?e)" by code_simp
  from delete_list_effect[of ?d "lit ''7''" "lit ''Movies''"] x v
  have 1: "\<not> fst (item_exists ?e (lit ''7'') (lit ''Movies'') (lit ''Dune''))"
    by auto
  have n: "\<not> fst (list_exists ?e (lit ''7'') (lit ''Music''))" by code_simp
  have c: "contains ?e (lit ''7'')" by code_simp
  from delete_list_effect[of ?e "lit ''7''" "lit ''Music''"] n c
  have 2: "delete_list ?e (lit ''7'') (lit ''Music'') = Inr (False, ?e)" by simp
  from x v 1 n 2 show ?thesis by blast
qed


section \<open>The other methods in closed form\<close>

lemma data_user_touched:
  "data_user (snd (data_user d u)) u = (fst (data_user d u), snd (data_user d u))"
  by (cases "map_of d u")
     (simp_all add: data_user_present data_user_absent data_user_def dd_get_def map_add_def)

lemma lookup2_user: "lookup2 d u l \<noteq> None \<Longrightarrow> snd (data_user d u) = d"
  by (auto simp: lookup2_def data_user_present split: option.splits)

lemma create_list_eq:
  "create_list d u l =
     (if lookup2 d u l \<noteq> None then d
      else AList.update u (AList.update l [] (fst (data_user d u))) (snd (data_user d u)))"
proof (cases "map_of d u")
  case None
  then have "lookup2 d u l = None" by (simp add: lookup2_def)
  with None show ?thesis
    using data_user_touched[of d u]
    by (simp add: create_list_def data_user_absent set_list_def contains_def)
next
  case (Some ls)
  then show ?thesis
    by (simp add: create_list_def data_user_present set_list_present lookup2_def contains_def)
qed

lemma create_list_touched: "create_list (snd (data_user d u)) u l = create_list d u l"
  using lookup2_user[of d u l]
  by (simp add: create_list_eq lookup2_touched data_user_touched del: not_None_eq)

lemma lookup2_create_list:
  "lookup2 (create_list d u l) u' l' =
     (if u' = u \<and> l' = l \<and> lookup2 d u l = None then Some [] else lookup2 d u' l')"
  by (cases "map_of d u")
     (auto simp: create_list_eq lookup2_def AList.update_conv' data_user_present
        data_user_absent split: option.splits)

lemma lookup3_create_list: "lookup3 (create_list d u l) u' l' i' = lookup3 d u' l' i'"
  by (auto simp: lookup3_def lookup2_create_list split: option.splits)

lemma add_item_eq:
  "add_item d u l i =
     (if lookup3 (create_list d u l) u l i \<noteq> None then create_list d u l
      else put_item (create_list d u l) u l i [])"
proof -
  let ?d2 = "create_list d u l"
  have "lookup2 ?d2 u l \<noteq> None" by (simp add: lookup2_create_list)
  then obtain its where its: "lookup2 ?d2 u l = Some its" by blast
  from lookup2_SomeD[OF this] obtain ls where
    ls: "map_of ?d2 u = Some ls" "map_of ls l = Some its" by blast
  have "add_item d u l i = (if \<not> contains its i then set_item ?d2 u l i [] else ?d2)"
  proof (cases "lookup2 d u l")
    case None
    then show ?thesis
      by (simp add: add_item_def list_exists_eq create_list_touched data_list_present[OF ls])
  next
    case (Some x)
    then have "snd (data_user d u) = d" "?d2 = d"
      using lookup2_user[of d u l] by (simp_all add: create_list_eq)
    with Some show ?thesis
      using data_list_present[OF ls] by (simp add: add_item_def list_exists_eq)
  qed
  also have "\<dots> = (if lookup3 ?d2 u l i \<noteq> None then ?d2 else put_item ?d2 u l i [])"
    using ls its by (simp add: contains_def lookup3_def set_item_present put_item_def)
  finally show ?thesis .
qed

lemma lookup3_add_item:
  "lookup3 (add_item d u l i) u' l' i' =
     (if u' = u \<and> l' = l \<and> i' = i \<and> lookup3 d u l i = None then Some []
      else lookup3 d u' l' i')"
  by (auto simp: add_item_eq lookup3_put_item lookup2_create_list lookup3_create_list)

lemma lookup2_add_item_dom:
  "(lookup2 (add_item d u l i) u' l' \<noteq> None) = ((u' = u \<and> l' = l) \<or> lookup2 d u' l' \<noteq> None)"
  by (auto simp: add_item_eq lookup2_put_item_dom lookup2_create_list simp del: not_None_eq)

lemma delete_item_eq:
  "delete_item d u l i =
     (case lookup3 d u l i of
        None \<Rightarrow> Inr (False, snd (data_user d u))
      | Some rs \<Rightarrow> Inr (True, drop_item d u l i))"
proof (cases "lookup3 d u l i")
  case None
  then show ?thesis by (simp add: delete_item_def item_exists_eq)
next
  case (Some rs)
  from lookup3_SomeD[OF this] obtain ls its where
    "map_of d u = Some ls" "map_of ls l = Some its" "map_of its i = Some rs" by blast
  with Some show ?thesis
    by (simp add: delete_item_def item_exists_eq data_user_present data_list_present
        set_list_present dict_del_def contains_def drop_item_def)
qed

lemma lookup3_drop_item:
  "lookup3 (drop_item d u l i) u' l' i' =
     (if u' = u \<and> l' = l \<and> i' = i then None else lookup3 d u' l' i')"
  by (auto simp: drop_item_def lookup3_def lookup2_def AList.update_conv' AList.delete_conv'
      split: option.splits)

lemma lookup2_drop_item_dom:
  "(lookup2 (drop_item d u l i) u' l' \<noteq> None) = (lookup2 d u' l' \<noteq> None)"
  by (auto simp: drop_item_def lookup2_def AList.update_conv' split: option.splits)

lemma clear_ratings_eq:
  "clear_ratings d u l i =
     (case lookup3 d u l i of
        None \<Rightarrow> (False, snd (data_user d u))
      | Some rs \<Rightarrow> (True, put_item d u l i []))"
proof (cases "lookup3 d u l i")
  case None
  then show ?thesis by (simp add: clear_ratings_def item_exists_eq)
next
  case (Some rs)
  from lookup3_SomeD[OF this] obtain ls its where
    "map_of d u = Some ls" "map_of ls l = Some its" "map_of its i = Some rs" by blast
  with Some show ?thesis
    by (simp add: clear_ratings_def item_exists_eq data_user_present set_item_present
        put_item_def)
qed

lemma get_all_lists_eq:
  "get_all_lists d u = (map fst (fst (data_user d u)), snd (data_user d u))"
  by (simp add: get_all_lists_def split: prod.splits)

lemma get_average_rating_eq:
  "get_average_rating d u l i =
     (if fst (get_item_ratings d u l i) = [] then Inr (0, snd (data_user d u))
      else (case round_double (mean_score (fst (get_item_ratings d u l i))) of
              None \<Rightarrow> Inl OverflowError
            | Some r \<Rightarrow> Inr (r, snd (data_user d u))))"
  by (simp add: get_average_rating_def get_item_ratings_eq py_truediv_def mean_score_def
      Let_def split: option.splits)

section \<open>Rounding to a double\<close>

lemma round_half_even_near: "\<bar>of_int (round_half_even x) - x\<bar> \<le> 1 / 2"
  unfolding round_half_even_def Let_def by (auto simp: abs_if) linarith+

lemma round_half_even_nonneg: "0 \<le> x \<Longrightarrow> 0 \<le> round_half_even x"
  unfolding round_half_even_def Let_def by auto

lemma binade_le:
  assumes "0 < a"
  shows "2 powi (binade a) \<le> a"
proof -
  obtain n d where nd: "quotient_of a = (n, d)" by (cases "quotient_of a")
  then have a: "a = of_int n / of_int d" by (rule quotient_of_div)
  have d: "0 < d" using quotient_of_denom_pos[OF nd] .
  with a assms have n: "0 < n" by (simp add: zero_less_divide_iff)
  show ?thesis
  proof (cases "(2::rat) powi (bitlen n - bitlen d) \<le> a")
    case True
    then show ?thesis by (simp add: binade_def nd)
  next
    case False
    from bitlen_bounds[OF n] have "2 ^ nat (bitlen n - 1) \<le> n" by simp
    then have "(of_int (2 ^ nat (bitlen n - 1)) :: rat) \<le> of_int n"
      by (simp only: of_int_le_iff)
    moreover have "1 \<le> bitlen n" using n bitlen_eq_zero_iff[of n] bitlen_nonneg[of n] by linarith
    ultimately have ln: "(2::rat) powi (bitlen n - 1) \<le> of_int n"
      by (simp add: power_int_def)
    from bitlen_bounds[OF d] have "d < 2 ^ nat (bitlen d)" by simp
    then have "(of_int d :: rat) < of_int (2 ^ nat (bitlen d))"
      by (simp only: of_int_less_iff)
    then have ud: "(of_int d :: rat) \<le> 2 powi (bitlen d)"
      using bitlen_nonneg[of d] by (simp add: power_int_def)
    have "(2::rat) powi (bitlen n - bitlen d - 1) = 2 powi (bitlen n - 1) / 2 powi (bitlen d)"
      using power_int_diff[of "2::rat" "bitlen n - 1" "bitlen d"] by (simp add: algebra_simps)
    also have "\<dots> \<le> of_int n / 2 powi (bitlen d)"
      using ln by (simp add: divide_right_mono)
    also have "\<dots> \<le> of_int n / of_int d"
      using ud d n by (simp add: divide_left_mono)
    finally have low: "(2::rat) powi (bitlen n - bitlen d - 1) \<le> of_int n / of_int d" .
    have "binade a = bitlen n - bitlen d - 1" using False by (simp add: binade_def nd)
    with low show ?thesis by (simp add: a)
  qed
qed

lemma round_double_small:
  assumes "0 \<le> q" and "q \<le> 10"
  shows "\<exists>r. round_double q = Some r \<and> 0 \<le> r \<and> \<bar>r - q\<bar> \<le> 2 powi (- 50)"
proof (cases "q = 0")
  case True
  then show ?thesis by (simp add: round_double_def)
next
  case False
  with assms have pos: "0 < q" by simp
  define k where "k = max (binade q) (- 1022) - 52"
  define u where "u = (2::rat) powi k"
  define m where "m = round_half_even (q / u)"
  have "binade q \<le> 3"
  proof (rule ccontr)
    assume "\<not> binade q \<le> 3"
    then have "4 \<le> binade q" by simp
    then have "(2::rat) powi 4 \<le> 2 powi (binade q)" by (intro power_int_increasing) simp_all
    also have "\<dots> \<le> q" by (rule binade_le[OF pos])
    finally show False using assms(2) by simp
  qed
  then have k: "k \<le> - 49" by (simp add: k_def)
  have upos: "0 < u" by (simp add: u_def)
  have "u \<le> 2 powi (- 49)"
    unfolding u_def using k by (intro power_int_increasing) simp_all
  then have "u / 2 \<le> 2 powi (- 49) / 2" by (rule divide_right_mono) simp
  moreover have "(2::rat) powi (- 49) / 2 = 2 powi (- 50)"
    using power_int_minus_mult[of "2::rat" "- 49"] by simp
  ultimately have uh: "u / 2 \<le> 2 powi (- 50)" by simp
  have "\<bar>of_int m - q / u\<bar> \<le> 1 / 2" unfolding m_def by (rule round_half_even_near)
  then have "\<bar>of_int m - q / u\<bar> * u \<le> 1 / 2 * u"
    using upos by (intro mult_right_mono) simp_all
  moreover have "\<bar>of_int m - q / u\<bar> * u = \<bar>of_int m * u - q\<bar>"
  proof -
    have "\<bar>of_int m - q / u\<bar> * u = \<bar>(of_int m - q / u) * u\<bar>"
      using upos by (simp add: abs_mult)
    also have "(of_int m - q / u) * u = of_int m * u - q"
      using upos by (simp add: left_diff_distrib)
    finally show ?thesis .
  qed
  ultimately have near: "\<bar>of_int m * u - q\<bar> \<le> u / 2" by simp
  have mnn: "0 \<le> m" unfolding m_def using pos upos by (intro round_half_even_nonneg) simp
  have rnn: "0 \<le> of_int m * u" using mnn upos by simp
  have "of_int m * u \<le> q + u / 2" using near by linarith
  also have "\<dots> \<le> 10 + 2 powi (- 50)" using assms(2) uh by simp
  also have "\<dots> < 2 powi 1024"
  proof -
    have "(2::rat) powi (- 50) \<le> 2 powi 0" by (intro power_int_increasing) simp_all
    then have "10 + (2::rat) powi (- 50) < 2 powi 4" by simp
    also have "(2::rat) powi 4 \<le> 2 powi 1024" by (intro power_int_increasing) simp_all
    finally show ?thesis .
  qed
  finally have small: "\<not> 2 powi 1024 \<le> of_int m * u" by simp
  have "round_double q = Some (of_int m * u)"
    using False pos small by (simp add: round_double_def Let_def k_def u_def m_def)
  with rnn near uh show ?thesis by simp
qed

lemma sum_scores_bounds:
  "list_all score_ok rs \<Longrightarrow>
   0 \<le> sum_list (map fst rs) \<and> sum_list (map fst rs) \<le> 10 * int (length rs)"
  by (induction rs) (auto simp: score_ok_def)

lemma mean_score_bounds:
  assumes "list_all score_ok rs"
  shows "0 \<le> mean_score rs \<and> mean_score rs \<le> 10"
proof (cases "rs = []")
  case True
  then show ?thesis by (simp add: mean_score_def)
next
  case False
  then have n: "(0::rat) < of_nat (length rs)" by simp
  from sum_scores_bounds[OF assms]
  have "(0::rat) \<le> of_int (sum_list (map fst rs))"
    and "(of_int (sum_list (map fst rs)) :: rat) \<le> of_int (10 * int (length rs))"
    by (simp_all only: of_int_le_iff of_int_0_le_iff)
  with n False show ?thesis
    by (simp add: mean_score_def divide_le_eq)
qed

section \<open>Scores stay between 0 and 10\<close>

lemma list_all_update: "list_all P al \<Longrightarrow> P (k, v) \<Longrightarrow> list_all P (AList.update k v al)"
  by (induction al) auto

lemma list_all_delete: "list_all P al \<Longrightarrow> list_all P (AList.delete k al)"
  by (induction al) auto

lemma list_all_map_of: "list_all P al \<Longrightarrow> map_of al k = Some v \<Longrightarrow> P (k, v)"
  by (auto simp: list_all_iff dest: map_of_SomeD)

lemma valid_touched: "ratings_valid d \<Longrightarrow> ratings_valid (snd (data_user d u))"
  by (simp add: snd_data_user ratings_valid_def lists_valid_def)

lemma valid_user: "ratings_valid d \<Longrightarrow> lists_valid (fst (data_user d u))"
  by (cases "map_of d u")
     (auto simp: data_user_present data_user_absent ratings_valid_def lists_valid_def
        dest: list_all_map_of)

lemma valid_lookup3:
  assumes "ratings_valid d" and "lookup3 d u l i = Some rs"
  shows "list_all score_ok rs"
proof -
  from lookup3_SomeD[OF assms(2)] obtain ls its where
    *: "map_of d u = Some ls" "map_of ls l = Some its" "map_of its i = Some rs" by blast
  from list_all_map_of[OF _ *(1)] assms(1) have "lists_valid ls"
    by (auto simp: ratings_valid_def)
  with list_all_map_of[OF _ *(2)] have "items_valid its"
    by (auto simp: lists_valid_def)
  with list_all_map_of[OF _ *(3)] show ?thesis
    by (auto simp: items_valid_def)
qed

lemma valid_put_item:
  "ratings_valid d \<Longrightarrow> list_all score_ok rs \<Longrightarrow> ratings_valid (put_item d u l i rs)"
  by (auto simp: put_item_def ratings_valid_def lists_valid_def items_valid_def
      split: option.splits intro!: list_all_update dest: list_all_map_of)

lemma valid_drop_list: "ratings_valid d \<Longrightarrow> ratings_valid (drop_list d u l)"
  by (auto simp: drop_list_def ratings_valid_def lists_valid_def
      split: option.splits intro!: list_all_update list_all_delete dest: list_all_map_of)

lemma valid_drop_item: "ratings_valid d \<Longrightarrow> ratings_valid (drop_item d u l i)"
  by (auto simp: drop_item_def ratings_valid_def lists_valid_def items_valid_def
      split: option.splits intro!: list_all_update list_all_delete dest: list_all_map_of)

lemma valid_create_list: "ratings_valid d \<Longrightarrow> ratings_valid (create_list d u l)"
proof -
  assume v: "ratings_valid d"
  have "lists_valid (AList.update l [] (fst (data_user d u)))"
    using valid_user[OF v, of u]
    by (auto simp: lists_valid_def items_valid_def intro!: list_all_update)
  with valid_touched[OF v, of u] v show ?thesis
    by (auto simp: create_list_eq ratings_valid_def intro!: list_all_update)
qed

lemma valid_add_item: "ratings_valid d \<Longrightarrow> ratings_valid (add_item d u l i)"
  by (simp add: add_item_eq valid_create_list valid_put_item)

lemma valid_add_rating: "ratings_valid d \<Longrightarrow> ratings_valid (add_rating d u l i s c)"
  by (auto simp: add_rating_eq valid_touched score_ok_def split: option.splits
      intro!: valid_put_item dest: valid_lookup3)

lemma list_all_removed: "list_all P xs \<Longrightarrow> list_all P (take k xs @ drop (Suc k) xs)"
  by (auto simp: list_all_iff dest: in_set_takeD in_set_dropD)

lemma call_valid: "ratings_valid d \<Longrightarrow> \<exists>d'. call c d = Inr d' \<and> ratings_valid d'"
proof (cases c)
  case (DeleteRating u l i k)
  assume "ratings_valid d"
  then show ?thesis
    unfolding DeleteRating
    by (auto simp: after_def delete_rating_eq valid_touched split: option.splits
        intro!: valid_put_item list_all_removed dest: valid_lookup3)
next
  case (GetAverageRating u l i)
  assume v: "ratings_valid d"
  have "list_all score_ok (fst (get_item_ratings d u l i))"
    using valid_lookup3[OF v, of u l i] by (auto simp: fst_get_item_ratings split: option.splits)
  from mean_score_bounds[OF this]
       round_double_small[of "mean_score (fst (get_item_ratings d u l i))"]
  obtain r where "round_double (mean_score (fst (get_item_ratings d u l i))) = Some r"
    by blast
  with v show ?thesis
    unfolding GetAverageRating
    by (simp add: after_def get_average_rating_eq valid_touched)
qed (auto simp: after_def list_exists_eq get_all_lists_eq item_exists_eq get_list_items_eq
       get_item_ratings_eq delete_list_eq delete_item_eq clear_ratings_eq
       valid_touched valid_create_list valid_add_item valid_add_rating valid_drop_list
       valid_drop_item valid_put_item split: option.splits)

lemma calls_valid: "ratings_valid d \<Longrightarrow> \<exists>d'. calls cs d = Inr d' \<and> ratings_valid d'"
proof (induction cs arbitrary: d)
  case Nil
  then show ?case by simp
next
  case (Cons c cs)
  from call_valid[OF Cons.prems, of c] obtain d1 where
    "call c d = Inr d1" "ratings_valid d1" by blast
  with Cons.IH[of d1] show ?case by simp
qed

text \<open>
  Claim C4. Whatever sequence of calls of the store's methods is made on the empty
  store, with arbitrary arguments, none of them raises and in the store reached every
  stored rating has a score between 0 and 10; in particular every rating that
  \<open>get_item_ratings\<close> returns for any user, list and item has such a score.
\<close>

theorem scores_in_range:
  "\<exists>d. calls cs init = Inr d \<and> ratings_valid d
       \<and> (\<forall>u l i. \<forall>r \<in> set (fst (get_item_ratings d u l i)). 0 \<le> fst r \<and> fst r \<le> 10)"
proof -
  have "ratings_valid init" by (simp add: init_def ratings_valid_def)
  from calls_valid[OF this, of cs] obtain d where
    d: "calls cs init = Inr d" "ratings_valid d" by blast
  have "0 \<le> fst r \<and> fst r \<le> 10" if "r \<in> set (fst (get_item_ratings d u l i))" for u l i r
  proof (cases "lookup3 d u l i")
    case None
    with that show ?thesis by (simp add: fst_get_item_ratings)
  next
    case (Some rs)
    from valid_lookup3[OF d(2) Some] that Some show ?thesis
      by (auto simp: fst_get_item_ratings list_all_iff score_ok_def)
  qed
  with d show ?thesis by blast
qed


theorem scores_in_range_witness:
  "calls [CreateList (lit ''7'') (lit ''Movies''), AddItem (lit ''7'') (lit ''Movies'') (lit ''Dune''),
          AddRating (lit ''7'') (lit ''Movies'') (lit ''Dune'') 11 [],
          AddRating (lit ''7'') (lit ''Movies'') (lit ''Dune'') 7 (lit ''great''),
          AddRating (lit ''7'') (lit ''Movies'') (lit ''Dune'') (- 1) []] init
     = Inr [(lit ''7'', [(lit ''Movies'', [(lit ''Dune'', [(7, lit ''great'')])])])]
   \<and> (7, lit ''great'')
       \<in> set (fst (get_item_ratings
                     [(lit ''7'', [(lit ''Movies'', [(lit ''Dune'', [(7, lit ''great'')])])])]
                     (lit ''7'') (lit ''Movies'') (lit ''Dune'')))
   \<and> (0::int) \<le> fst (7::int, lit ''great'') \<and> fst (7::int, lit ''great'') \<le> 10"
proof -
  let ?cs = "[CreateList (lit ''7'') (lit ''Movies''), AddItem (lit ''7'') (lit ''Movies'') (lit ''Dune''),
          AddRating (lit ''7'') (lit ''Movies'') (lit ''Dune'') 11 [],
          AddRating (lit ''7'') (lit ''Movies'') (lit ''Dune'') 7 (lit ''great''),
          AddRating (lit ''7'') (lit ''Movies'') (lit ''Dune'') (- 1) []]"
  let ?d = "[(lit ''7'', [(lit ''Movies'', [(lit ''Dune'', [(7, lit ''great'')])])])]"
  have run: "calls ?cs init = Inr ?d" by code_simp
  have mem: "(7, lit ''great'')
       \<in> set (fst (get_item_ratings ?d (lit ''7'') (lit ''Movies'') (lit ''Dune'')))"
    by code_simp
  from scores_in_range[of ?cs] run
  have "\<forall>u l i. \<forall>r \<in> set (fst (get_item_ratings ?d u l i)). 0 \<le> fst r \<and> fst r \<le> 10"
    by simp
  with mem have "(0::int) \<le> fst (7::int, lit ''great'') \<and> fst (7::int, lit ''great'') \<le> 10"
    by blast
  with run mem show ?thesis by blast
qed


section \<open>The average rating\<close>

text \<open>
  Claim C5, as amended. \<open>get_average_rating\<close> returns 0 when the item has no ratings
  or is absent. Otherwise it returns the float nearest to the arithmetic mean of the
  scores of the rating sequence, the sum of the scores divided by their number (and
  raises \<open>OverflowError\<close> if that mean is too large for a float); when the scores are
  between 0 and 10, as they are in every store that can be reached, it returns a
  float within \<open>2^(-50)\<close> of the mean. Over the sequence \<open>[(0, ""), (10, "")]\<close> it
  returns exactly 5.0.
\<close>

theorem average_rating_rounded:
  "(fst (get_item_ratings d u l i) = [] \<longrightarrow>
      get_average_rating d u l i = Inr (0, snd (data_user d u)))
   \<and> (\<not> fst (item_exists d u l i) \<longrightarrow>
        get_average_rating d u l i = Inr (0, snd (data_user d u)))
   \<and> (fst (get_item_ratings d u l i) \<noteq> [] \<longrightarrow>
        get_average_rating d u l i
          = (case round_double (of_int (sum_list (map fst (fst (get_item_ratings d u l i))))
                                  / of_nat (length (fst (get_item_ratings d u l i)))) of
               None \<Rightarrow> Inl OverflowError
             | Some r \<Rightarrow> Inr (r, snd (data_user d u))))
   \<and> (fst (get_item_ratings d u l i) \<noteq> []
        \<and> list_all score_ok (fst (get_item_ratings d u l i)) \<longrightarrow>
        (\<exists>r. get_average_rating d u l i = Inr (r, snd (data_user d u))
           \<and> round_double (of_int (sum_list (map fst (fst (get_item_ratings d u l i))))
                              / of_nat (length (fst (get_item_ratings d u l i)))) = Some r
           \<and> \<bar>r - of_int (sum_list (map fst (fst (get_item_ratings d u l i))))
                     / of_nat (length (fst (get_item_ratings d u l i)))\<bar> \<le> 2 powi (- 50)))
   \<and> (fst (get_item_ratings d u l i) = [(0, []), (10, [])] \<longrightarrow>
        get_average_rating d u l i = Inr (5, snd (data_user d u)))"
proof -
  let ?rs = "fst (get_item_ratings d u l i)"
  let ?m = "of_int (sum_list (map fst ?rs)) / of_nat (length ?rs) :: rat"
  have m: "?rs \<noteq> [] \<Longrightarrow> mean_score ?rs = ?m" by (simp add: mean_score_def)
  have a: "?rs = [] \<longrightarrow> get_average_rating d u l i = Inr (0, snd (data_user d u))"
    by (simp add: get_average_rating_eq)
  have b: "\<not> fst (item_exists d u l i) \<longrightarrow>
        get_average_rating d u l i = Inr (0, snd (data_user d u))"
    by (simp add: get_average_rating_eq fst_item_exists fst_get_item_ratings)
  have c: "?rs \<noteq> [] \<longrightarrow> get_average_rating d u l i
          = (case round_double ?m of None \<Rightarrow> Inl OverflowError
             | Some r \<Rightarrow> Inr (r, snd (data_user d u)))"
    using m by (simp add: get_average_rating_eq)
  have e: "?rs \<noteq> [] \<and> list_all score_ok ?rs \<longrightarrow>
        (\<exists>r. get_average_rating d u l i = Inr (r, snd (data_user d u))
           \<and> round_double ?m = Some r \<and> \<bar>r - ?m\<bar> \<le> 2 powi (- 50))"
  proof
    assume h: "?rs \<noteq> [] \<and> list_all score_ok ?rs"
    with mean_score_bounds[of ?rs] m have "0 \<le> ?m" "?m \<le> 10" by simp_all
    from round_double_small[OF this] obtain r where
      "round_double ?m = Some r" "\<bar>r - ?m\<bar> \<le> 2 powi (- 50)" by blast
    with c h show "\<exists>r. get_average_rating d u l i = Inr (r, snd (data_user d u))
           \<and> round_double ?m = Some r \<and> \<bar>r - ?m\<bar> \<le> 2 powi (- 50)" by simp
  qed
  have five: "round_double 5 = Some 5" by code_simp
  have f: "?rs = [(0, []), (10, [])] \<longrightarrow>
        get_average_rating d u l i = Inr (5, snd (data_user d u))"
    using five by (simp add: get_average_rating_eq mean_score_def)
  from a b c e f show ?thesis by blast
qed

text \<open>
  Claim C5 as stated fails: over the scores 0, 0, 1 the value returned is the float
  0.3333333333333333, which is not the arithmetic mean 1/3.
\<close>

theorem average_rating_exact_counterexample:
  "fst (get_item_ratings
         [(lit ''7'', [(lit ''Movies'', [(lit ''Dune'', [(0, []), (0, []), (1, [])])])])]
         (lit ''7'') (lit ''Movies'') (lit ''Dune'')) = [(0, []), (0, []), (1, [])]
   \<and> get_average_rating
         [(lit ''7'', [(lit ''Movies'', [(lit ''Dune'', [(0, []), (0, []), (1, [])])])])]
         (lit ''7'') (lit ''Movies'') (lit ''Dune'')
       = Inr (6004799503160661 / 18014398509481984,
              [(lit ''7'', [(lit ''Movies'', [(lit ''Dune'', [(0, []), (0, []), (1, [])])])])])
   \<and> (6004799503160661 / 18014398509481984 :: rat)
       \<noteq> of_int (sum_list (map fst [(0, []), (0, []), (1::int, [] :: pystr)]))
           / of_nat (length [(0, []), (0, []), (1::int, [] :: pystr)])"
  by code_simp

theorem average_rating_rounded_witness:
  "fst (get_item_ratings [(lit ''7'', [(lit ''Movies'', [(lit ''Dune'', [(0, []), (10, [])])])])]
         (lit ''7'') (lit ''Movies'') (lit ''Dune'')) = [(0, []), (10, [])]
   \<and> get_average_rating [(lit ''7'', [(lit ''Movies'', [(lit ''Dune'', [(0, []), (10, [])])])])]
         (lit ''7'') (lit ''Movies'') (lit ''Dune'')
       = Inr (5, [(lit ''7'', [(lit ''Movies'', [(lit ''Dune'', [(0, []), (10, [])])])])])
   \<and> \<not> fst (item_exists [(lit ''7'', [(lit ''Movies'', [(lit ''Dune'', [(0, []), (10, [])])])])]
              (lit ''7'') (lit ''Movies'') (lit ''Alien''))
   \<and> get_average_rating [(lit ''7'', [(lit ''Movies'', [(lit ''Dune'', [(0, []), (10, [])])])])]
         (lit ''7'') (lit ''Movies'') (lit ''Alien'')
       = Inr (0, [(lit ''7'', [(lit ''Movies'', [(lit ''Dune'', [(0, []), (10, [])])])])])
   \<and> list_all score_ok [(0, []), (10, [])]
   \<and> (\<exists>r. round_double (of_int (sum_list (map fst [(0, []), (10::int, [] :: pystr)]))
                            / of_nat (length [(0, []), (10::int, [] :: pystr)])) = Some r
          \<and> \<bar>r - of_int (sum_list (map fst [(0, []), (10::int, [] :: pystr)]))
                   / of_nat (length [(0, []), (10::int, [] :: pystr)])\<bar> \<le> 2 powi (- 50))"
proof -
  let ?d = "[(lit ''7'', [(lit ''Movies'', [(lit ''Dune'', [(0, []), (10, [])])])])]"
  have r: "fst (get_item_ratings ?d (lit ''7'') (lit ''Movies'') (lit ''Dune''))
             = [(0, []), (10, [])]" by code_simp
  have t: "snd (data_user ?d (lit ''7'')) = ?d" by code_simp
  have n: "\<not> fst (item_exists ?d (lit ''7'') (lit ''Movies'') (lit ''Alien''))" by code_simp
  have v: "list_all score_ok [(0, []), (10::int, [] :: pystr)]" by (simp add: score_ok_def)
  note a = average_rating_rounded[of ?d "lit ''7''" "lit ''Movies''" "lit ''Dune''"]
  from a r
  have "get_average_rating ?d (lit ''7'') (lit ''Movies'') (lit ''Dune'')
          = Inr (5, snd (data_user ?d (lit ''7'')))"
    by blast
  then have 1: "get_average_rating ?d (lit ''7'') (lit ''Movies'') (lit ''Dune'') = Inr (5, ?d)"
    by (simp only: t)
  from average_rating_rounded[of ?d "lit ''7''" "lit ''Movies''" "lit ''Alien''"] n
  have "get_average_rating ?d (lit ''7'') (lit ''Movies'') (lit ''Alien'')
          = Inr (0, snd (data_user ?d (lit ''7'')))"
    by blast
  then have 2: "get_average_rating ?d (lit ''7'') (lit ''Movies'') (lit ''Alien'') = Inr (0, ?d)"
    by (simp only: t)
  have ne: "fst (get_item_ratings ?d (lit ''7'') (lit ''Movies'') (lit ''Dune'')) \<noteq> []"
    by (simp only: r) simp
  from a ne v have 3: "\<exists>r. round_double (of_int (sum_list (map fst [(0, []), (10::int, [] :: pystr)]))
                            / of_nat (length [(0, []), (10::int, [] :: pystr)])) = Some r
          \<and> \<bar>r - of_int (sum_list (map fst [(0, []), (10::int, [] :: pystr)]))
                   / of_nat (length [(0, []), (10::int, [] :: pystr)])\<bar> \<le> 2 powi (- 50)"
    unfolding r by blast
  from r 1 n 2 v 3 show ?thesis by blast
qed


section \<open>Creating a list twice\<close>

lemma create_list_call_eq: "create_list_call d u n = ((), create_list d u n)"
  by (simp add: create_list_call_def create_list_def split: prod.splits)

lemma distinct_touched: "names_distinct d \<Longrightarrow> names_distinct (snd (data_user d u))"
  by (simp add: snd_data_user names_distinct_def)

lemma distinct_user: "names_distinct d \<Longrightarrow> distinct (map fst (fst (data_user d u)))"
  by (cases "map_of d u")
     (auto simp: data_user_present data_user_absent names_distinct_def dest: list_all_map_of)

lemma distinct_put_item: "names_distinct d \<Longrightarrow> names_distinct (put_item d u l i rs)"
  by (auto simp: put_item_def names_distinct_def split: option.splits
      intro!: list_all_update AList.distinct_update dest: list_all_map_of)

lemma distinct_drop_list: "names_distinct d \<Longrightarrow> names_distinct (drop_list d u l)"
  by (auto simp: drop_list_def names_distinct_def split: option.splits
      intro!: list_all_update AList.distinct_delete dest: list_all_map_of)

lemma distinct_drop_item: "names_distinct d \<Longrightarrow> names_distinct (drop_item d u l i)"
  by (auto simp: drop_item_def names_distinct_def split: option.splits
      intro!: list_all_update AList.distinct_update dest: list_all_map_of)

lemma distinct_create_list: "names_distinct d \<Longrightarrow> names_distinct (create_list d u l)"
proof -
  assume v: "names_distinct d"
  have "distinct (map fst (AList.update l [] (fst (data_user d u))))"
    using distinct_user[OF v, of u] by (rule AList.distinct_update)
  with distinct_touched[OF v, of u] v show ?thesis
    by (auto simp: create_list_eq names_distinct_def intro!: list_all_update)
qed

lemma distinct_add_item: "names_distinct d \<Longrightarrow> names_distinct (add_item d u l i)"
  by (simp add: add_item_eq distinct_create_list distinct_put_item)

lemma call_distinct:
  assumes "names_distinct d" and "call c d = Inr d'"
  shows "names_distinct d'"
  using assms
  by (cases c)
     (auto simp: after_def list_exists_eq get_all_lists_eq item_exists_eq get_list_items_eq
        get_item_ratings_eq get_average_rating_eq add_rating_eq delete_list_eq delete_item_eq
        delete_rating_eq clear_ratings_eq distinct_touched distinct_create_list
        distinct_add_item distinct_drop_list distinct_drop_item distinct_put_item
        split: option.splits if_splits)

lemma calls_distinct:
  "names_distinct d \<Longrightarrow> calls cs d = Inr d' \<Longrightarrow> names_distinct d'"
proof (induction cs arbitrary: d)
  case Nil
  then show ?case by simp
next
  case (Cons c cs)
  then show ?case by (auto split: sum.splits dest: call_distinct)
qed

lemma reachable_distinct: "calls cs init = Inr d \<Longrightarrow> names_distinct d"
  by (rule calls_distinct[of init]) (simp_all add: init_def names_distinct_def)


lemma count_list_distinct: "distinct xs \<Longrightarrow> x \<in> set xs \<Longrightarrow> count_list xs x = 1"
  by (induction xs) (auto simp: count_list_0_iff)

lemma fst_get_all_lists: "fst (get_all_lists d u) = map fst (fst (data_user d u))"
  by (simp add: get_all_lists_eq)

lemma list_in_all_lists:
  "lookup2 d u l \<noteq> None \<Longrightarrow> l \<in> set (fst (get_all_lists d u))"
proof -
  assume "lookup2 d u l \<noteq> None"
  then obtain its where "lookup2 d u l = Some its" by blast
  from lookup2_SomeD[OF this] obtain ls where
    ls: "map_of d u = Some ls" "map_of ls l = Some its" by blast
  from map_of_SomeD[OF ls(2)] have "l \<in> fst ` set ls" by force
  with ls(1) show ?thesis by (simp add: fst_get_all_lists data_user_present)
qed

lemma handlers_create_list_eq:
  "handlers_create_list d sender n =
     (if lookup2 d (py_str sender) n \<noteq> None
      then ((lit ''You already have a list named '' @ [39] @ n @ [39]
               @ lit ''. Please choose a different name.'', CREATE_LIST),
            snd (data_user d (py_str sender)))
      else ((lit ''Great! I'' @ [39] @ lit ''ve created a new list called '' @ [39]
               @ n @ [39] @ lit ''.'' @ [10]
               @ lit ''You can add items to it with /additem'', END),
            create_list d (py_str sender) n))"
  by (simp add: handlers_create_list_def list_exists_eq create_list_touched Let_def
      del: not_None_eq)


text \<open>
  Claim C3, as amended. Calling the store's \<open>create_list\<close> with a name that the user
  already has is a no-op on the store: the call returns the store it was given, so
  the list is still there with its items and ratings, the user's list names are the
  same, and in every store that can be reached from the empty one the name occurs
  exactly once among them. The call itself gives its caller no signal: like a
  successful creation it returns \<open>None\<close>. The duplicate is signalled by the handler
  \<open>create_list\<close> of the conversation, which tests \<open>list_exists\<close> before it calls the
  store: for a duplicate it leaves the store as it is, replies that the user already
  has a list of that name and returns the state \<open>CREATE_LIST\<close>, whereas for a new name
  it creates the list and returns \<open>END\<close>, a different value.
\<close>

theorem create_list_duplicate:
  "fst (list_exists d u n) \<Longrightarrow>
     create_list_call d u n = ((), d)
   \<and> (\<forall>d0. fst (create_list_call d0 u n) = fst (create_list_call d u n))
   \<and> fst (list_exists (snd (create_list_call d u n)) u n)
   \<and> fst (get_list_items (snd (create_list_call d u n)) u n) = fst (get_list_items d u n)
   \<and> fst (get_all_lists (snd (create_list_call d u n)) u) = fst (get_all_lists d u)
   \<and> ((\<exists>cs. calls cs init = Inr d) \<longrightarrow>
        count_list (fst (get_all_lists (snd (create_list_call d u n)) u)) n = 1)
   \<and> (\<forall>sender. u = py_str sender \<longrightarrow>
         handlers_create_list d sender n
           = ((lit ''You already have a list named '' @ [39] @ n @ [39]
                 @ lit ''. Please choose a different name.'', CREATE_LIST), d))
   \<and> (\<forall>d0 sender. \<not> fst (list_exists d0 (py_str sender) n) \<longrightarrow>
         snd (fst (handlers_create_list d0 sender n)) = END
         \<and> snd (handlers_create_list d0 sender n) = snd (create_list_call d0 (py_str sender) n)
         \<and> fst (list_exists (snd (handlers_create_list d0 sender n)) (py_str sender) n))
   \<and> CREATE_LIST \<noteq> END"
proof -
  assume "fst (list_exists d u n)"
  then have ex: "lookup2 d u n \<noteq> None" by (simp add: fst_list_exists)
  have same: "create_list_call d u n = ((), d)"
    using ex by (simp add: create_list_call_eq create_list_eq)
  have ret: "\<forall>d0. fst (create_list_call d0 u n) = fst (create_list_call d u n)" by simp
  have ex': "fst (list_exists (snd (create_list_call d u n)) u n)"
    using ex by (simp add: same fst_list_exists del: not_None_eq)
  have gi: "fst (get_list_items (snd (create_list_call d u n)) u n) = fst (get_list_items d u n)"
    by (simp add: same)
  have ga: "fst (get_all_lists (snd (create_list_call d u n)) u) = fst (get_all_lists d u)"
    by (simp add: same)
  have cnt: "(\<exists>cs. calls cs init = Inr d) \<longrightarrow>
        count_list (fst (get_all_lists (snd (create_list_call d u n)) u)) n = 1"
  proof
    assume "\<exists>cs. calls cs init = Inr d"
    then obtain cs where "calls cs init = Inr d" by blast
    then have "names_distinct d" by (rule reachable_distinct)
    then have "distinct (fst (get_all_lists d u))"
      by (simp add: fst_get_all_lists distinct_user)
    with list_in_all_lists[OF ex]
    show "count_list (fst (get_all_lists (snd (create_list_call d u n)) u)) n = 1"
      by (simp add: same count_list_distinct)
  qed
  have dup: "\<forall>sender. u = py_str sender \<longrightarrow>
         handlers_create_list d sender n
           = ((lit ''You already have a list named '' @ [39] @ n @ [39]
                 @ lit ''. Please choose a different name.'', CREATE_LIST), d)"
  proof (intro allI impI)
    fix sender assume u: "u = py_str sender"
    with ex have "lookup2 d (py_str sender) n \<noteq> None" by simp
    moreover from this have "snd (data_user d (py_str sender)) = d" by (rule lookup2_user)
    ultimately show "handlers_create_list d sender n
           = ((lit ''You already have a list named '' @ [39] @ n @ [39]
                 @ lit ''. Please choose a different name.'', CREATE_LIST), d)"
      by (simp add: handlers_create_list_eq del: not_None_eq)
  qed
  have fresh: "\<forall>d0 sender. \<not> fst (list_exists d0 (py_str sender) n) \<longrightarrow>
         snd (fst (handlers_create_list d0 sender n)) = END
         \<and> snd (handlers_create_list d0 sender n) = snd (create_list_call d0 (py_str sender) n)
         \<and> fst (list_exists (snd (handlers_create_list d0 sender n)) (py_str sender) n)"
    by (simp add: handlers_create_list_eq create_list_call_eq fst_list_exists lookup2_create_list)
  have ne: "CREATE_LIST \<noteq> END" by (simp add: CREATE_LIST_def END_def)
  from same ret ex' gi ga cnt dup fresh ne show ?thesis by blast
qed

text \<open>
  Claim C3 as stated fails: a call of \<open>create_list\<close> with a name that exists and a call
  that creates the list return the same value, so what the call returns does not tell
  the duplicate from the creation.
\<close>

theorem create_list_signal_counterexample:
  "fst (list_exists [(lit ''7'', [(lit ''Movies'', [])])] (lit ''7'') (lit ''Movies''))
   \<and> \<not> fst (list_exists init (lit ''7'') (lit ''Movies''))
   \<and> snd (create_list_call init (lit ''7'') (lit ''Movies'')) = [(lit ''7'', [(lit ''Movies'', [])])]
   \<and> fst (create_list_call [(lit ''7'', [(lit ''Movies'', [])])] (lit ''7'') (lit ''Movies''))
       = fst (create_list_call init (lit ''7'') (lit ''Movies''))"
  by code_simp

theorem create_list_duplicate_witness:
  "fst (list_exists [(lit ''7'', [(lit ''Movies'', [(lit ''Dune'', [(9, [])])])])]
         (lit ''7'') (lit ''Movies''))
   \<and> create_list_call [(lit ''7'', [(lit ''Movies'', [(lit ''Dune'', [(9, [])])])])]
        (lit ''7'') (lit ''Movies'')
       = ((), [(lit ''7'', [(lit ''Movies'', [(lit ''Dune'', [(9, [])])])])])
   \<and> calls [AddItem (lit ''7'') (lit ''Movies'') (lit ''Dune''),
             AddRating (lit ''7'') (lit ''Movies'') (lit ''Dune'') 9 []] init
       = Inr [(lit ''7'', [(lit ''Movies'', [(lit ''Dune'', [(9, [])])])])]
   \<and> count_list
        (fst (get_all_lists
                (snd (create_list_call [(lit ''7'', [(lit ''Movies'', [(lit ''Dune'', [(9, [])])])])]
                        (lit ''7'') (lit ''Movies'')))
                (lit ''7''))) (lit ''Movies'') = 1
   \<and> snd (fst (handlers_create_list
                  [(lit ''7'', [(lit ''Movies'', [(lit ''Dune'', [(9, [])])])])] 7
                  (lit ''Movies''))) = CREATE_LIST
   \<and> snd (fst (handlers_create_list init 7 (lit ''Movies''))) = END"
proof -
  let ?d = "[(lit ''7'', [(lit ''Movies'', [(lit ''Dune'', [(9, [])])])])]"
  have ex: "fst (list_exists ?d (lit ''7'') (lit ''Movies''))" by code_simp
  have run: "calls [AddItem (lit ''7'') (lit ''Movies'') (lit ''Dune''),
             AddRating (lit ''7'') (lit ''Movies'') (lit ''Dune'') 9 []] init = Inr ?d"
    by code_simp
  then have re: "\<exists>cs. calls cs init = Inr ?d" by blast
  have u: "lit ''7'' = py_str 7" by code_simp
  have fr: "\<not> fst (list_exists init (py_str 7) (lit ''Movies''))" by code_simp
  note t = create_list_duplicate[OF ex]
  from t have 1: "create_list_call ?d (lit ''7'') (lit ''Movies'') = ((), ?d)" by blast
  from t re have 2: "count_list (fst (get_all_lists (snd (create_list_call ?d (lit ''7'')
                       (lit ''Movies''))) (lit ''7''))) (lit ''Movies'') = 1" by blast
  from t u have "handlers_create_list ?d 7 (lit ''Movies'')
           = ((lit ''You already have a list named '' @ [39] @ lit ''Movies'' @ [39]
                 @ lit ''. Please choose a different name.'', CREATE_LIST), ?d)" by blast
  then have 3: "snd (fst (handlers_create_list ?d 7 (lit ''Movies''))) = CREATE_LIST"
    by (simp only: fst_conv snd_conv)
  from t fr have 4: "snd (fst (handlers_create_list init 7 (lit ''Movies''))) = END" by blast
  from ex 1 run 2 3 4 show ?thesis by blast
qed


section \<open>What introduces lists and items\<close>

lemma lookup3_drop_list:
  "lookup3 (drop_list d u l) u' l' i' = (if u' = u \<and> l' = l then None else lookup3 d u' l' i')"
  by (simp add: lookup3_def lookup2_drop_list)

lemma lookup3_put_item_dom:
  "lookup3 d u l i \<noteq> None \<Longrightarrow>
   (lookup3 (put_item d u l i rs) u' l' i' \<noteq> None) = (lookup3 d u' l' i' \<noteq> None)"
  using lookup3_lookup2[of d u l i] by (auto simp: lookup3_put_item)

lemma read_touches:
  assumes "reads c" and "call c d = Inr d'"
  shows "\<exists>u. d' = snd (data_user d u)"
  using assms
  by (cases c)
     (auto simp: after_def list_exists_eq get_all_lists_eq item_exists_eq get_list_items_eq
        get_item_ratings_eq get_average_rating_eq split: option.splits if_splits)

lemma read_keeps:
  assumes "reads c" and "call c d = Inr d'"
  shows "lookup2 d' u l = lookup2 d u l" and "lookup3 d' u l i = lookup3 d u l i"
  using read_touches[OF assms] by (auto simp: lookup2_touched lookup3_touched)

lemma call_no_new_list:
  assumes "call c d = Inr d'" and "\<not> is_create_list c" and "\<not> is_add_item c"
    and "lookup2 d' u l \<noteq> None"
  shows "lookup2 d u l \<noteq> None"
proof (cases "reads c")
  case True
  from read_keeps(1)[OF True assms(1)] assms(4) show ?thesis by simp
next
  case False
  with assms show ?thesis
  proof (cases c)
    case (AddRating u1 l1 i1 s1 c1)
    with assms(1,4) show ?thesis
      using lookup2_put_item_dom[of d u1 l1 i1 _ u l]
      by (auto simp: add_rating_eq lookup2_touched split: option.splits if_splits)
  next
    case (DeleteList u1 l1)
    with assms(1,4) show ?thesis
      by (auto simp: after_def delete_list_eq lookup2_touched lookup2_drop_list
          split: option.splits if_splits)
  next
    case (DeleteItem u1 l1 i1)
    with assms(1,4) show ?thesis
      using lookup2_drop_item_dom[of d u1 l1 i1 u l]
      by (auto simp: after_def delete_item_eq lookup2_touched split: option.splits)
  next
    case (DeleteRating u1 l1 i1 k1)
    with assms(1,4) show ?thesis
      using lookup2_put_item_dom[of d u1 l1 i1 _ u l]
      by (auto simp: after_def delete_rating_eq lookup2_touched split: option.splits if_splits)
  next
    case (ClearRatings u1 l1 i1)
    with assms(1,4) show ?thesis
      using lookup2_put_item_dom[of d u1 l1 i1 "[]" u l]
      by (auto simp: clear_ratings_eq lookup2_touched split: option.splits)
  qed simp_all
qed

lemma call_no_new_item:
  assumes "call c d = Inr d'" and "\<not> is_add_item c" and "lookup3 d' u l i \<noteq> None"
  shows "lookup3 d u l i \<noteq> None"
proof (cases "reads c")
  case True
  from read_keeps(2)[OF True assms(1)] assms(3) show ?thesis by simp
next
  case False
  with assms show ?thesis
  proof (cases c)
    case (CreateList u1 l1)
    with assms(1,3) show ?thesis by (auto simp: lookup3_create_list)
  next
    case (AddRating u1 l1 i1 s1 c1)
    with assms(1,3) show ?thesis
      using lookup3_put_item_dom[of d u1 l1 i1 _ u l i]
      by (auto simp: add_rating_eq lookup3_touched split: option.splits if_splits)
  next
    case (DeleteList u1 l1)
    with assms(1,3) show ?thesis
      by (auto simp: after_def delete_list_eq lookup3_touched lookup3_drop_list
          split: option.splits if_splits)
  next
    case (DeleteItem u1 l1 i1)
    with assms(1,3) show ?thesis
      by (auto simp: after_def delete_item_eq lookup3_touched lookup3_drop_item
          split: option.splits if_splits)
  next
    case (DeleteRating u1 l1 i1 k1)
    with assms(1,3) show ?thesis
      using lookup3_put_item_dom[of d u1 l1 i1 _ u l i]
      by (auto simp: after_def delete_rating_eq lookup3_touched split: option.splits if_splits)
  next
    case (ClearRatings u1 l1 i1)
    with assms(1,3) show ?thesis
      using lookup3_put_item_dom[of d u1 l1 i1 "[]" u l i]
      by (auto simp: clear_ratings_eq lookup3_touched split: option.splits)
  qed simp_all
qed


text \<open>
  Claim C8. Read operations never create lists or items. For a list that is absent,
  \<open>get_list_items\<close> returns an empty mapping and \<open>list_exists\<close> returns false, and after
  either call the list is still absent; for an item that is absent, \<open>get_item_ratings\<close>
  returns an empty sequence and \<open>item_exists\<close> returns false, and after either call the
  item is still absent. Every call of a reading method leaves the existence of every
  list and of every item as it was. A call of any method other than \<open>create_list\<close> and
  \<open>add_item\<close> introduces no list, and a call of any method other than \<open>add_item\<close>
  introduces no item, whereas \<open>create_list\<close> and \<open>add_item\<close> do make the list exist
  and \<open>add_item\<close> the item.
\<close>

theorem reads_create_nothing:
  "(\<not> fst (list_exists d u l) \<longrightarrow>
       fst (get_list_items d u l) = []
     \<and> \<not> fst (list_exists (snd (get_list_items d u l)) u l)
     \<and> \<not> fst (list_exists (snd (list_exists d u l)) u l))
   \<and> (\<not> fst (item_exists d u l i) \<longrightarrow>
       fst (get_item_ratings d u l i) = []
     \<and> \<not> fst (item_exists (snd (item_exists d u l i)) u l i)
     \<and> \<not> fst (item_exists (snd (get_item_ratings d u l i)) u l i))
   \<and> (\<forall>c d'. call c d = Inr d' \<and> reads c \<longrightarrow>
         (\<forall>u' l'. fst (list_exists d' u' l') = fst (list_exists d u' l'))
       \<and> (\<forall>u' l' i'. fst (item_exists d' u' l' i') = fst (item_exists d u' l' i')))
   \<and> (\<forall>c d'. call c d = Inr d' \<and> \<not> is_create_list c \<and> \<not> is_add_item c \<longrightarrow>
         (\<forall>u' l'. fst (list_exists d' u' l') \<longrightarrow> fst (list_exists d u' l')))
   \<and> (\<forall>c d'. call c d = Inr d' \<and> \<not> is_add_item c \<longrightarrow>
         (\<forall>u' l' i'. fst (item_exists d' u' l' i') \<longrightarrow> fst (item_exists d u' l' i')))
   \<and> fst (list_exists (create_list d u l) u l)
   \<and> fst (list_exists (add_item d u l i) u l)
   \<and> fst (item_exists (add_item d u l i) u l i)"
proof -
  have a: "\<not> fst (list_exists d u l) \<longrightarrow>
       fst (get_list_items d u l) = []
     \<and> \<not> fst (list_exists (snd (get_list_items d u l)) u l)
     \<and> \<not> fst (list_exists (snd (list_exists d u l)) u l)"
    by (simp add: list_exists_eq get_list_items_eq lookup2_touched)
  have b: "\<not> fst (item_exists d u l i) \<longrightarrow>
       fst (get_item_ratings d u l i) = []
     \<and> \<not> fst (item_exists (snd (item_exists d u l i)) u l i)
     \<and> \<not> fst (item_exists (snd (get_item_ratings d u l i)) u l i)"
    by (simp add: item_exists_eq get_item_ratings_eq lookup3_touched)
  have c: "\<forall>c d'. call c d = Inr d' \<and> reads c \<longrightarrow>
         (\<forall>u' l'. fst (list_exists d' u' l') = fst (list_exists d u' l'))
       \<and> (\<forall>u' l' i'. fst (item_exists d' u' l' i') = fst (item_exists d u' l' i'))"
  proof (intro allI impI)
    fix c d' assume h: "call c d = Inr d' \<and> reads c"
    then have "\<And>u' l'. lookup2 d' u' l' = lookup2 d u' l'"
      and "\<And>u' l' i'. lookup3 d' u' l' i' = lookup3 d u' l' i'"
      using read_keeps[of c d d'] by blast+
    then show "(\<forall>u' l'. fst (list_exists d' u' l') = fst (list_exists d u' l'))
       \<and> (\<forall>u' l' i'. fst (item_exists d' u' l' i') = fst (item_exists d u' l' i'))"
      by (simp add: fst_list_exists fst_item_exists)
  qed
  have e: "\<forall>c d'. call c d = Inr d' \<and> \<not> is_create_list c \<and> \<not> is_add_item c \<longrightarrow>
         (\<forall>u' l'. fst (list_exists d' u' l') \<longrightarrow> fst (list_exists d u' l'))"
    unfolding fst_list_exists using call_no_new_list by blast
  have f: "\<forall>c d'. call c d = Inr d' \<and> \<not> is_add_item c \<longrightarrow>
         (\<forall>u' l' i'. fst (item_exists d' u' l' i') \<longrightarrow> fst (item_exists d u' l' i'))"
    unfolding fst_item_exists using call_no_new_item by blast
  have g: "fst (list_exists (create_list d u l) u l)"
    by (simp add: fst_list_exists lookup2_create_list)
  have h: "fst (list_exists (add_item d u l i) u l)"
    using lookup2_add_item_dom[of d u l i u l] by (simp add: fst_list_exists)
  have k: "fst (item_exists (add_item d u l i) u l i)"
    by (simp add: fst_item_exists lookup3_add_item)
  from a b c e f g h k show ?thesis by blast
qed


theorem reads_create_nothing_witness:
  "\<not> fst (list_exists [(lit ''7'', [(lit ''Books'', [])])] (lit ''7'') (lit ''Movies''))
   \<and> fst (get_list_items [(lit ''7'', [(lit ''Books'', [])])] (lit ''7'') (lit ''Movies'')) = []
   \<and> \<not> fst (list_exists
              (snd (get_list_items [(lit ''7'', [(lit ''Books'', [])])] (lit ''7'') (lit ''Movies'')))
              (lit ''7'') (lit ''Movies''))
   \<and> \<not> fst (item_exists [(lit ''7'', [(lit ''Books'', [])])] (lit ''7'') (lit ''Books'') (lit ''Dune''))
   \<and> \<not> fst (item_exists
              (snd (get_item_ratings [(lit ''7'', [(lit ''Books'', [])])]
                      (lit ''7'') (lit ''Books'') (lit ''Dune'')))
              (lit ''7'') (lit ''Books'') (lit ''Dune''))
   \<and> call (GetListItems (lit ''8'') (lit ''Movies'')) [(lit ''7'', [(lit ''Books'', [])])]
       = Inr [(lit ''7'', [(lit ''Books'', [])]), (lit ''8'', [])]
   \<and> reads (GetListItems (lit ''8'') (lit ''Movies''))
   \<and> \<not> fst (list_exists [(lit ''7'', [(lit ''Books'', [])]), (lit ''8'', [])]
              (lit ''8'') (lit ''Movies''))
   \<and> call (AddRating (lit ''7'') (lit ''Movies'') (lit ''Dune'') 5 [])
        [(lit ''7'', [(lit ''Books'', [])])] = Inr [(lit ''7'', [(lit ''Books'', [])])]
   \<and> \<not> is_add_item (AddRating (lit ''7'') (lit ''Movies'') (lit ''Dune'') 5 [])"
proof -
  let ?d = "[(lit ''7'', [(lit ''Books'', [])])]"
  let ?e = "[(lit ''7'', [(lit ''Books'', [])]), (lit ''8'', [])]"
  have n: "\<not> fst (list_exists ?d (lit ''7'') (lit ''Movies''))" by code_simp
  have m: "\<not> fst (item_exists ?d (lit ''7'') (lit ''Books'') (lit ''Dune''))" by code_simp
  have q: "call (GetListItems (lit ''8'') (lit ''Movies'')) ?d = Inr ?e" by code_simp
  have qr: "reads (GetListItems (lit ''8'') (lit ''Movies''))" by simp
  have q8: "\<not> fst (list_exists ?d (lit ''8'') (lit ''Movies''))" by code_simp
  have r: "call (AddRating (lit ''7'') (lit ''Movies'') (lit ''Dune'') 5 []) ?d = Inr ?d"
    by code_simp
  have w: "\<not> is_add_item (AddRating (lit ''7'') (lit ''Movies'') (lit ''Dune'') 5 [])" by simp
  note t = reads_create_nothing[of ?d "lit ''7''" "lit ''Movies''" "lit ''Dune''"]
  note t2 = reads_create_nothing[of ?d "lit ''7''" "lit ''Books''" "lit ''Dune''"]
  from t n have 1: "fst (get_list_items ?d (lit ''7'') (lit ''Movies'')) = []" by blast
  from t n have 2: "\<not> fst (list_exists (snd (get_list_items ?d (lit ''7'') (lit ''Movies'')))
                        (lit ''7'') (lit ''Movies''))" by blast
  from t2 m have 3: "\<not> fst (item_exists (snd (get_item_ratings ?d (lit ''7'') (lit ''Books'')
                        (lit ''Dune''))) (lit ''7'') (lit ''Books'') (lit ''Dune''))" by blast
  from t q qr have "fst (list_exists ?e (lit ''8'') (lit ''Movies''))
                      = fst (list_exists ?d (lit ''8'') (lit ''Movies''))" by blast
  with q8 have 4: "\<not> fst (list_exists ?e (lit ''8'') (lit ''Movies''))" by blast
  from n 1 2 m 3 q qr 4 r w show ?thesis by blast
qed


section \<open>The administrator check\<close>




section \<open>The administrator decorator\<close>


lemma split_from_nonempty: "cur \<noteq> [] \<Longrightarrow> split_from cur s \<noteq> []"
  by (induction s arbitrary: cur) auto

lemma split_from_empty_iff: "split_from [] s = [] \<longleftrightarrow> (\<forall>c \<in> set s. py_isspace c)"
proof (induction s)
  case Nil
  then show ?case by simp
next
  case (Cons c s)
  then show ?case using split_from_nonempty[of "[c]" s] by auto
qed

lemma py_split_empty_iff: "py_split s = [] \<longleftrightarrow> (\<forall>c \<in> set s. py_isspace c)"
  by (simp add: py_split_def split_from_empty_iff)

text \<open>
  What the decorated handler does for a sender who is not an administrator: an update
  without message or text, or with an empty text, goes to the handler; a text with
  a first token goes to the handler unless that token is one of the five commands,
  for which the denial is sent; a text of whitespace only has no first token, and
  taking it raises \<open>IndexError\<close>.
\<close>

lemma admin_required_non_admin:
  assumes "is_admin g upd = Inr False"
  shows "admin_required denial func g upd =
     (case message upd of
        None \<Rightarrow> Inr (Handled (func upd))
      | Some m \<Rightarrow>
          (case msg_text m of
             None \<Rightarrow> Inr (Handled (func upd))
           | Some t \<Rightarrow>
               (case py_split t of
                  [] \<Rightarrow> if t = [] then Inr (Handled (func upd)) else Inl IndexError
                | tok # rest \<Rightarrow>
                    if tok \<in> set ADMIN_COMMANDS then Inr (Denied denial END)
                    else Inr (Handled (func upd)))))"
proof -
  have e: "[] \<notin> set ADMIN_COMMANDS" by (simp add: ADMIN_COMMANDS_def lit_def)
  have s: "py_split [] = []" by (simp add: py_split_def)
  show ?thesis
    using assms e s
    by (auto simp: admin_required_def command_of_def split: option.splits list.splits)
qed



section \<open>The ratings listing\<close>

lemma average_no_error:
  assumes "ratings_valid d"
  shows "\<exists>r. get_average_rating d u l i = Inr (r, snd (data_user d u))"
proof -
  have "list_all score_ok (fst (get_item_ratings d u l i))"
    using valid_lookup3[OF assms, of u l i]
    by (auto simp: fst_get_item_ratings split: option.splits)
  from mean_score_bounds[OF this]
       round_double_small[of "mean_score (fst (get_item_ratings d u l i))"]
  obtain r where "round_double (mean_score (fst (get_item_ratings d u l i))) = Some r"
    by blast
  then show ?thesis by (simp add: get_average_rating_eq)
qed

lemma item_blocks_total:
  "ratings_valid d \<Longrightarrow> \<exists>m d'. item_blocks t fmt d u l items = Inr (m, d') \<and> ratings_valid d'"
proof (induction items arbitrary: d)
  case Nil
  then show ?case by simp
next
  case (Cons p items)
  obtain item_name ratings where p: "p = (item_name, ratings)" by (cases p)
  show ?case
  proof (cases "ratings = []")
    case True
    from Cons.IH[OF Cons.prems] obtain m d' where
      "item_blocks t fmt d u l items = Inr (m, d')" "ratings_valid d'" by blast
    with True p show ?thesis by simp
  next
    case False
    from average_no_error[OF Cons.prems, of u l item_name] obtain r where
      r: "get_average_rating d u l item_name = Inr (r, snd (data_user d u))" by blast
    from Cons.IH[OF valid_touched[OF Cons.prems, of u]] obtain m d' where
      "item_blocks t fmt (snd (data_user d u)) u l items = Inr (m, d')" "ratings_valid d'"
      by blast
    with False p r show ?thesis by simp
  qed
qed

lemma notice_lengths:
  "length (truncated_notice texts_new) = 39" "length (truncated_notice texts_spanish) = 45"
  by (simp_all add: texts_new_def texts_spanish_def lit_def)

text \<open>
  Claim C9. In either language, when the selected list has items, the listing is
  rendered (for a store whose scores are between 0 and 10 the rendering raises
  nothing), and for every rendered message \<open>m\<close>: if \<open>len(m) > 4000\<close> the text sent is
  the first 3950 characters of \<open>m\<close> followed by the truncation notice, and is itself
  shorter than 4000 characters; if \<open>len(m) \<le> 4000\<close> the text sent is \<open>m\<close> unmodified.
\<close>

theorem long_reply_truncated:
  "t = texts_new \<or> t = texts_spanish \<Longrightarrow>
   get_list_items d (py_str sender) (py_remove (lit ''ratings_'') q) = (items, d1) \<Longrightarrow>
   items \<noteq> [] \<Longrightarrow>
     (ratings_valid d \<longrightarrow>
        (\<exists>m d2. ratings_message t fmt d1 (py_str sender) (py_remove (lit ''ratings_'') q) items
                   = Inr (m, d2)))
   \<and> (\<forall>m d2. ratings_message t fmt d1 (py_str sender) (py_remove (lit ''ratings_'') q) items
                 = Inr (m, d2) \<longrightarrow>
          (4000 < length m \<longrightarrow>
             view_list_ratings t fmt d sender q
               = Inr ((take 3950 m @ truncated_notice t, END), d2)
             \<and> length (take 3950 m @ truncated_notice t) < 4000)
        \<and> (length m \<le> 4000 \<longrightarrow>
             view_list_ratings t fmt d sender q = Inr ((m, END), d2)))"
proof -
  assume t: "t = texts_new \<or> t = texts_spanish"
    and g: "get_list_items d (py_str sender) (py_remove (lit ''ratings_'') q) = (items, d1)"
    and ne: "items \<noteq> []"
  let ?u = "py_str sender" and ?l = "py_remove (lit ''ratings_'') q"
  have tot: "ratings_valid d \<longrightarrow> (\<exists>m d2. ratings_message t fmt d1 ?u ?l items = Inr (m, d2))"
  proof
    assume v: "ratings_valid d"
    from g have "d1 = snd (data_user d ?u)" by (simp add: get_list_items_eq)
    with v have "ratings_valid d1" by (simp add: valid_touched)
    from item_blocks_total[OF this, of t fmt ?u ?l items]
    show "\<exists>m d2. ratings_message t fmt d1 ?u ?l items = Inr (m, d2)"
      by (auto simp: ratings_message_def)
  qed
  have n: "length (truncated_notice t) \<le> 45" using t notice_lengths by auto
  have cut: "\<forall>m d2. ratings_message t fmt d1 ?u ?l items = Inr (m, d2) \<longrightarrow>
          (4000 < length m \<longrightarrow>
             view_list_ratings t fmt d sender q
               = Inr ((take 3950 m @ truncated_notice t, END), d2)
             \<and> length (take 3950 m @ truncated_notice t) < 4000)
        \<and> (length m \<le> 4000 \<longrightarrow>
             view_list_ratings t fmt d sender q = Inr ((m, END), d2))"
    using g ne n by (auto simp: view_list_ratings_def Let_def)
  from tot cut show ?thesis by blast
qed


theorem long_reply_truncated_witness:
  "(\<exists>txt. view_list_ratings texts_new (\<lambda>avg. lit ''9.0'')
            [(lit ''7'', [(lit ''Movies'', [(lit ''Dune'', [(9, replicate 4000 97)])])])]
            7 (lit ''ratings_Movies'')
          = Inr ((txt, END),
                 [(lit ''7'', [(lit ''Movies'', [(lit ''Dune'', [(9, replicate 4000 97)])])])])
        \<and> length txt = 3989
        \<and> drop 3950 txt = truncated_notice texts_new)
   \<and> view_list_ratings texts_spanish (\<lambda>avg. lit ''9.0'')
        [(lit ''7'', [(lit ''Movies'', [(lit ''Dune'', [(9, lit ''ok'')])])])]
        7 (lit ''ratings_Movies'')
      = Inr ((ratings_header texts_spanish @ lit ''Movies'' @ [39] @ lit '':'' @ [10, 10]
                @ [8226, 32] @ lit ''Dune'' @ [10]
                @ average_label texts_spanish @ lit ''9.0'' @ lit ''/10'' @ [10]
                @ all_ratings_line texts_spanish
                @ lit ''    1. 9/10 - '' @ [34] @ lit ''ok'' @ [34] @ [10] @ [10], END),
             [(lit ''7'', [(lit ''Movies'', [(lit ''Dune'', [(9, lit ''ok'')])])])])"
proof -
  let ?c = "replicate 4000 (97::nat)"
  let ?d = "[(lit ''7'', [(lit ''Movies'', [(lit ''Dune'', [(9, ?c)])])])]"
  let ?e = "[(lit ''7'', [(lit ''Movies'', [(lit ''Dune'', [(9, lit ''ok'')])])])]"
  let ?fmt = "\<lambda>avg::rat. lit ''9.0''"
  let ?m = "ratings_header texts_new @ lit ''Movies'' @ [39] @ lit '':'' @ [10, 10]
              @ [8226, 32] @ lit ''Dune'' @ [10]
              @ average_label texts_new @ lit ''9.0'' @ lit ''/10'' @ [10]
              @ all_ratings_line texts_new
              @ lit ''    1. 9/10 - '' @ [34] @ ?c @ [34] @ [10] @ [10]"
  let ?n = "ratings_header texts_spanish @ lit ''Movies'' @ [39] @ lit '':'' @ [10, 10]
              @ [8226, 32] @ lit ''Dune'' @ [10]
              @ average_label texts_spanish @ lit ''9.0'' @ lit ''/10'' @ [10]
              @ all_ratings_line texts_spanish
              @ lit ''    1. 9/10 - '' @ [34] @ lit ''ok'' @ [34] @ [10] @ [10]"
  have u: "py_str 7 = lit ''7''" by code_simp
  have l: "py_remove (lit ''ratings_'') (lit ''ratings_Movies'') = lit ''Movies''" by code_simp
  have one: "py_str 1 = lit ''1''" "py_str 9 = lit ''9''" by code_simp+
  have k: "lit ''7'' = [55]" "lit ''Movies'' = [77, 111, 118, 105, 101, 115]"
    "lit ''Dune'' = [68, 117, 110, 101]" by (simp_all add: lit_def)
  have cne: "?c \<noteq> []" by simp
  have nine: "round_double 9 = Some 9" by code_simp
  have gd: "get_list_items ?d (py_str 7) (py_remove (lit ''ratings_'') (lit ''ratings_Movies''))
              = ([(lit ''Dune'', [(9, ?c)])], ?d)"
    unfolding u l by (simp add: get_list_items_eq lookup2_def snd_data_user contains_def k)
  have ge: "get_list_items ?e (py_str 7) (py_remove (lit ''ratings_'') (lit ''ratings_Movies''))
              = ([(lit ''Dune'', [(9, lit ''ok'')])], ?e)"
    unfolding u l by (simp add: get_list_items_eq lookup2_def snd_data_user contains_def k)
  have ad: "get_average_rating ?d (lit ''7'') (lit ''Movies'') (lit ''Dune'') = Inr (9, ?d)"
    using nine
    by (simp add: get_average_rating_eq get_item_ratings_eq lookup3_def lookup2_def
        snd_data_user contains_def mean_score_def k)
  have ae: "get_average_rating ?e (lit ''7'') (lit ''Movies'') (lit ''Dune'') = Inr (9, ?e)"
    using nine
    by (simp add: get_average_rating_eq get_item_ratings_eq lookup3_def lookup2_def
        snd_data_user contains_def mean_score_def k)
  have md: "ratings_message texts_new ?fmt ?d (py_str 7)
              (py_remove (lit ''ratings_'') (lit ''ratings_Movies'')) [(lit ''Dune'', [(9, ?c)])]
            = Inr (?m, ?d)"
    unfolding u l using ad cne by (simp add: ratings_message_def one lit_def)
  have okne: "lit ''ok'' \<noteq> []" by (simp add: lit_def)
  have me: "ratings_message texts_spanish ?fmt ?e (py_str 7)
              (py_remove (lit ''ratings_'') (lit ''ratings_Movies''))
              [(lit ''Dune'', [(9, lit ''ok'')])]
            = Inr (?n, ?e)"
    unfolding u l using ae okne by (simp add: ratings_message_def one lit_def)
  have lm: "4000 < length ?m" by simp
  have ln: "length ?n \<le> 4000" by (simp add: texts_spanish_def lit_def)
  from long_reply_truncated[of texts_new ?d 7 "lit ''ratings_Movies''"
         "[(lit ''Dune'', [(9, ?c)])]" ?d ?fmt, OF _ gd] md lm
  have vd: "view_list_ratings texts_new ?fmt ?d 7 (lit ''ratings_Movies'')
              = Inr ((take 3950 ?m @ truncated_notice texts_new, END), ?d)"
    by blast
  from long_reply_truncated[of texts_spanish ?e 7 "lit ''ratings_Movies''"
         "[(lit ''Dune'', [(9, lit ''ok'')])]" ?e ?fmt, OF _ ge] me ln
  have ve: "view_list_ratings texts_spanish ?fmt ?e 7 (lit ''ratings_Movies'')
              = Inr ((?n, END), ?e)"
    by blast
  have len: "length (take 3950 ?m @ truncated_notice texts_new) = 3989"
    using lm by (simp add: notice_lengths)
  have dr: "drop 3950 (take 3950 ?m @ truncated_notice texts_new) = truncated_notice texts_new"
    using lm by simp
  from vd len dr ve show ?thesis by blast
qed

end
